theory Spec2Isabelle
  imports Complex_Main "HOL-Library.Sublist" "HOL-Library.AList"
begin

section \<open>Python values and exceptions\<close>

text \<open>
  The two scripts \<^verbatim>\<open>write_electro_nbo.py\<close> and \<^verbatim>\<open>write_electro_properties.py\<close>
  are embedded function by function. Definitions of the first carry the suffix
  \<open>_nbo\<close>, those of the second the suffix \<open>_props\<close>.

  Conventions of the embedding:
  \<^item> a Python \<^verbatim>\<open>float\<close> is a \<open>real\<close>: rounding, overflow, infinities and NaN are
    outside the model. What is kept of float arithmetic is that a division whose
    divisor is zero raises \<^verbatim>\<open>ZeroDivisionError\<close>;
  \<^item> a Python \<^verbatim>\<open>str\<close> is a \<open>string\<close>; the logs are ASCII text;
  \<^item> a raised exception is the left summand of the result, by its Python class;
  \<^item> the file system is a partial map from paths to the text that \<^verbatim>\<open>f.read()\<close>
    returns (newlines already translated by Python's text mode).
\<close>

datatype error =
    IndexError
  | ValueError
  | ZeroDivisionError
  | KeyError
  | OSError
  | Exception string

definition ebind :: "error + 'a \<Rightarrow> ('a \<Rightarrow> error + 'b) \<Rightarrow> error + 'b" where
  "ebind m f = (case m of Inl e \<Rightarrow> Inl e | Inr x \<Rightarrow> f x)"

text \<open>Python's \<^verbatim>\<open>xs[i]\<close>: a negative index counts from the end, an index out of
  range raises \<^verbatim>\<open>IndexError\<close>.\<close>

definition py_index :: "'a list \<Rightarrow> int \<Rightarrow> error + 'a" where
  "py_index xs i =
     (if 0 \<le> i \<and> i < int (length xs) then Inr (xs ! nat i)
      else if i < 0 \<and> - int (length xs) \<le> i then Inr (xs ! nat (int (length xs) + i))
      else Inl IndexError)"

text \<open>Python's \<^verbatim>\<open>a / b\<close> on floats.\<close>

definition py_div :: "real \<Rightarrow> real \<Rightarrow> error + real" where
  "py_div a b = (if b = 0 then Inl ZeroDivisionError else Inr (a / b))"

text \<open>Python's \<^verbatim>\<open>float(s)\<close> is a parameter \<open>pyfloat\<close> of the functions that
  parse: \<open>None\<close> where \<^verbatim>\<open>float\<close> raises \<^verbatim>\<open>ValueError\<close>.\<close>

definition float_of :: "(string \<Rightarrow> real option) \<Rightarrow> string \<Rightarrow> error + real" where
  "float_of pyfloat s = (case pyfloat s of None \<Rightarrow> Inl ValueError | Some v \<Rightarrow> Inr v)"

text \<open>Python's \<^verbatim>\<open>s.split("\n")\<close>: the pieces between newlines, empty pieces kept;
  the accumulator is the piece being read.\<close>

fun split_on :: "char \<Rightarrow> string \<Rightarrow> string \<Rightarrow> string list" where
  "split_on d piece [] = [piece]"
| "split_on d piece (c # cs) =
     (if c = d then piece # split_on d [] cs else split_on d (piece @ [c]) cs)"

definition py_lines :: "string \<Rightarrow> string list" where
  "py_lines s = split_on (CHR 0x0A) [] s"

text \<open>Python's \<^verbatim>\<open>s.split()\<close>: the maximal runs of characters that are not
  whitespace. On ASCII, \<^verbatim>\<open>str.isspace\<close> holds of the codes 9 to 13 and 28 to 32.\<close>

definition is_space :: "char \<Rightarrow> bool" where
  "is_space c \<longleftrightarrow> (9 \<le> (of_char c :: nat) \<and> (of_char c :: nat) \<le> 13)
                 \<or> (28 \<le> (of_char c :: nat) \<and> (of_char c :: nat) \<le> 32)"

fun split_from :: "string \<Rightarrow> string \<Rightarrow> string list" where
  "split_from tok [] = (if tok = [] then [] else [tok])"
| "split_from tok (c # cs) =
     (if is_space c then (if tok = [] then split_from [] cs else tok # split_from [] cs)
      else split_from (tok @ [c]) cs)"

definition py_split :: "string \<Rightarrow> string list" where
  "py_split s = split_from [] s"

text \<open>Python's \<^verbatim>\<open>str(n)\<close> for a non-negative integer.\<close>

definition digit_char :: "nat \<Rightarrow> char" where
  "digit_char d = char_of (48 + d)"

function py_str :: "nat \<Rightarrow> string" where
  "py_str n = (if n < 10 then [digit_char n] else py_str (n div 10) @ [digit_char (n mod 10)])"
  by pat_completeness auto
termination
  by (relation "measure id") auto

declare py_str.simps [simp del]

text \<open>\<^verbatim>\<open>with open(path, "r") as f: raw_text = f.read().split("\n")\<close>; a path that
  cannot be opened raises a subclass of \<^verbatim>\<open>OSError\<close>.\<close>

definition read_lines :: "(string \<rightharpoonup> string) \<Rightarrow> string \<Rightarrow> error + string list" where
  "read_lines fs path =
     (case fs path of None \<Rightarrow> Inl OSError | Some text \<Rightarrow> Inr (py_lines text))"

text \<open>\<^verbatim>\<open>[i for i, x in enumerate(raw_text) if P(x)]\<close>.\<close>

definition indices_where :: "(string \<Rightarrow> bool) \<Rightarrow> string list \<Rightarrow> nat list" where
  "indices_where P raw_text = map fst (filter (\<lambda>(i, x). P x) (enumerate 0 raw_text))"

text \<open>An instance of the parameter \<open>pyfloat\<close> for the closed examples below: the value
  of a plain decimal literal (an optional sign, digits, at most one point), which
  \<^verbatim>\<open>float\<close> accepts. It is \<open>None\<close> on every other token; the examples use plain literals
  only.\<close>

definition is_digit :: "char \<Rightarrow> bool" where
  "is_digit c \<longleftrightarrow> 48 \<le> (of_char c :: nat) \<and> (of_char c :: nat) \<le> 57"

definition digits_value :: "string \<Rightarrow> nat" where
  "digits_value ds = foldl (\<lambda>acc c. 10 * acc + ((of_char c :: nat) - 48)) 0 ds"

definition dec_float :: "string \<Rightarrow> real option" where
  "dec_float s =
     (let neg = (take 1 s = ''-'');
          body = (if take 1 s = ''-'' \<or> take 1 s = ''+'' then drop 1 s else s);
          ip = takeWhile (\<lambda>c. c \<noteq> CHR ''.'') body;
          fp = drop 1 (dropWhile (\<lambda>c. c \<noteq> CHR ''.'') body);
          v = real (digits_value ip) + real (digits_value fp) / 10 ^ length fp
      in if (ip = [] \<and> fp = []) \<or> \<not> list_all is_digit ip \<or> \<not> list_all is_digit fp then None
         else Some (if neg then - v else v))"

section \<open>Orbital energies\<close>

text \<open>\<^verbatim>\<open>get_homo_lumo\<close>, lines 32-53 of \<^verbatim>\<open>write_electro_nbo.py\<close>.\<close>

definition get_homo_lumo_nbo ::
  "(string \<Rightarrow> real option) \<Rightarrow> (string \<rightharpoonup> string) \<Rightarrow> string \<Rightarrow> error + (real \<times> real)" where
  "get_homo_lumo_nbo pyfloat fs path =
     ebind (read_lines fs path) (\<lambda>raw_text.
     let pop_indices =
           indices_where (sublist ''Population analysis using the SCF density.'') raw_text
     in ebind (py_index pop_indices (- 1)) (\<lambda>p.
     let raw_text = drop p raw_text
     in ebind (py_index (filter (sublist ''Alpha  occ. eigenvalues'') raw_text) (- 1)) (\<lambda>occ.
        ebind (py_index (py_split occ) (- 1)) (\<lambda>tok.
        ebind (float_of pyfloat tok) (\<lambda>homo.
        ebind (py_index (filter (sublist ''Alpha virt. eigenvalues'') raw_text) 0) (\<lambda>virt.
        ebind (py_index (py_split virt) 4) (\<lambda>tok.
        ebind (float_of pyfloat tok) (\<lambda>lumo.
        Inr (homo, lumo)))))))))"

text \<open>\<^verbatim>\<open>get_homo_lumo\<close>, lines 27-48 of \<^verbatim>\<open>write_electro_properties.py\<close>.\<close>

definition get_homo_lumo_props ::
  "(string \<Rightarrow> real option) \<Rightarrow> (string \<rightharpoonup> string) \<Rightarrow> string \<Rightarrow> error + (real \<times> real)" where
  "get_homo_lumo_props pyfloat fs path =
     ebind (read_lines fs path) (\<lambda>raw_text.
     let pop_indices =
           indices_where (sublist ''Population analysis using the SCF density.'') raw_text
     in ebind (py_index pop_indices (- 1)) (\<lambda>p.
     let raw_text = drop p raw_text
     in ebind (py_index (filter (sublist ''Alpha  occ. eigenvalues'') raw_text) (- 1)) (\<lambda>occ.
        ebind (py_index (py_split occ) (- 1)) (\<lambda>tok.
        ebind (float_of pyfloat tok) (\<lambda>homo.
        ebind (py_index (filter (sublist ''Alpha virt. eigenvalues'') raw_text) 0) (\<lambda>virt.
        ebind (py_index (py_split virt) 4) (\<lambda>tok.
        ebind (float_of pyfloat tok) (\<lambda>lumo.
        Inr (homo, lumo)))))))))"

section \<open>The global-property calculator\<close>

text \<open>\<^verbatim>\<open>get_properties\<close>, lines 56-73 of \<^verbatim>\<open>write_electro_nbo.py\<close>.\<close>

definition get_properties_nbo :: "real \<Rightarrow> real \<Rightarrow> error + (real \<times> real \<times> real \<times> real \<times> real)" where
  "get_properties_nbo homo lumo =
     (let kcal_mol_homo = 27.212 * homo;
          kcal_mol_lumo = 27.212 * lumo;
          electronegativity = (- 1 * (kcal_mol_homo + kcal_mol_lumo)) / 2;
          hardness = kcal_mol_lumo - kcal_mol_homo
      in ebind (py_div 1 (2 * hardness)) (\<lambda>softness.
         ebind (py_div (electronegativity ^ 2) (2 * hardness)) (\<lambda>global_electrophilicity.
         ebind (py_div 1 global_electrophilicity) (\<lambda>global_nucleophilicity.
         Inr (electronegativity, hardness, softness,
              global_electrophilicity, global_nucleophilicity)))))"

text \<open>\<^verbatim>\<open>get_properties\<close>, lines 51-68 of \<^verbatim>\<open>write_electro_properties.py\<close>.\<close>

definition get_properties_props :: "real \<Rightarrow> real \<Rightarrow> error + (real \<times> real \<times> real \<times> real \<times> real)" where
  "get_properties_props homo lumo =
     (let kcal_mol_homo = 27.212 * homo;
          kcal_mol_lumo = 27.212 * lumo;
          electronegativity = (- 1 * (kcal_mol_homo + kcal_mol_lumo)) / 2;
          hardness = kcal_mol_lumo - kcal_mol_homo
      in ebind (py_div 1 (2 * hardness)) (\<lambda>softness.
         ebind (py_div (electronegativity ^ 2) (2 * hardness)) (\<lambda>global_electrophilicity.
         ebind (py_div 1 global_electrophilicity) (\<lambda>global_nucleophilicity.
         Inr (electronegativity, hardness, softness,
              global_electrophilicity, global_nucleophilicity)))))"

section \<open>Charge tables\<close>

text \<open>The constants of lines 23-25 of \<^verbatim>\<open>write_electro_nbo.py\<close>.\<close>

definition SECTION_HEADER :: string where
  "SECTION_HEADER = ''******************************Gaussian NBO Version 3.1******************************''"

definition TABLE_HEADER :: string where
  "TABLE_HEADER = '' Summary of Natural Population Analysis:''"

definition TABLE_END :: string where
  "TABLE_END = '' =======================================================================''"

text \<open>\<^verbatim>\<open>get_charge_table\<close> of \<^verbatim>\<open>write_electro_nbo.py\<close>. Lines 96-108 cut the table
  out of the log and split its rows into tokens (\<open>table_text_nbo\<close>); the comprehension
  of lines 109-113 (\<open>entries_nbo\<close>) skips the rows whose first token is \<^verbatim>\<open>H\<close> and
  turns each other row into a label and a charge. An entry \<^verbatim>\<open>[label, charge]\<close> is a
  pair.\<close>

definition table_text_nbo :: "(string \<rightharpoonup> string) \<Rightarrow> string \<Rightarrow> error + string list list" where
  "table_text_nbo fs in_path =
     ebind (read_lines fs in_path) (\<lambda>raw_text.
     let section_start_indices = indices_where (sublist SECTION_HEADER) raw_text
     in ebind (py_index section_start_indices (- 1)) (\<lambda>s.
     let raw_text = drop s raw_text;
         table_start_indices = indices_where (sublist TABLE_HEADER) raw_text
     in ebind (py_index table_start_indices 0) (\<lambda>t.
     let raw_text = drop (t + 6) raw_text
     in ebind (py_index (indices_where (prefix TABLE_END) raw_text) 0) (\<lambda>end_index.
     let raw_text = take end_index raw_text
     in Inr (map py_split (take end_index raw_text))))))"

fun entries_nbo :: "(string \<Rightarrow> real option) \<Rightarrow> string list list \<Rightarrow> error + (string \<times> real) list" where
  "entries_nbo pyfloat [] = Inr []"
| "entries_nbo pyfloat (entry # rest) =
     ebind (py_index entry 0) (\<lambda>e0.
       if e0 \<noteq> ''H'' then
         ebind (py_index entry 0) (\<lambda>a.
         ebind (py_index entry 1) (\<lambda>b.
         ebind (py_index entry 2) (\<lambda>c.
         ebind (float_of pyfloat c) (\<lambda>charge.
         ebind (entries_nbo pyfloat rest) (\<lambda>tl. Inr ((a @ b, charge) # tl))))))
       else entries_nbo pyfloat rest)"

definition get_charge_table_nbo ::
  "(string \<Rightarrow> real option) \<Rightarrow> (string \<rightharpoonup> string) \<Rightarrow> string \<Rightarrow> error + (string \<times> real) list" where
  "get_charge_table_nbo pyfloat fs in_path =
     ebind (table_text_nbo fs in_path) (entries_nbo pyfloat)"

text \<open>\<^verbatim>\<open>get_charge_table\<close> of \<^verbatim>\<open>write_electro_properties.py\<close>. Lines 89-96 cut the
  table out and drop the index column of each row (\<open>table_text_props\<close>); line 97
  (\<open>drop_hydrogen\<close>) removes the rows whose first token is \<^verbatim>\<open>H\<close>; the loop of lines
  98-105 (\<open>label_rows\<close>) parses the charge, counts the element in \<^verbatim>\<open>element_dict\<close> and
  writes the label. The key missing from \<^verbatim>\<open>element_dict\<close> is the \<^verbatim>\<open>except\<close> branch.
  Tokens of a row after the charge stay in the Python row and are never read; the
  entry of the model is the pair of label and charge.\<close>

definition table_text_props :: "(string \<rightharpoonup> string) \<Rightarrow> string \<Rightarrow> error + string list list" where
  "table_text_props fs in_path =
     ebind (read_lines fs in_path) (\<lambda>raw_text.
     let table_start_indices = indices_where (sublist ''Mulliken atomic charges:'') raw_text
     in ebind (py_index table_start_indices (- 1)) (\<lambda>t.
     let raw_text = drop (t + 2) raw_text
     in ebind (py_index (indices_where (prefix '' Sum'') raw_text) 0) (\<lambda>end_index.
        Inr (map (\<lambda>line. drop 1 (py_split line)) (take end_index raw_text)))))"

fun drop_hydrogen :: "string list list \<Rightarrow> error + string list list" where
  "drop_hydrogen [] = Inr []"
| "drop_hydrogen (line # rest) =
     ebind (py_index line 0) (\<lambda>e0.
     ebind (drop_hydrogen rest) (\<lambda>tl.
     Inr (if e0 \<noteq> ''H'' then line # tl else tl)))"

fun label_rows ::
  "(string \<Rightarrow> real option) \<Rightarrow> (string \<rightharpoonup> nat) \<Rightarrow> string list list \<Rightarrow> error + (string \<times> real) list" where
  "label_rows pyfloat element_dict [] = Inr []"
| "label_rows pyfloat element_dict (row # rest) =
     ebind (py_index row 1) (\<lambda>c.
     ebind (float_of pyfloat c) (\<lambda>charge.
     ebind (py_index row 0) (\<lambda>elem.
     let n = (case element_dict elem of Some k \<Rightarrow> k + 1 | None \<Rightarrow> 1)
     in ebind (label_rows pyfloat (element_dict(elem \<mapsto> n)) rest) (\<lambda>tl.
        Inr ((elem @ py_str n, charge) # tl)))))"

definition get_charge_table_props ::
  "(string \<Rightarrow> real option) \<Rightarrow> (string \<rightharpoonup> string) \<Rightarrow> string \<Rightarrow> error + (string \<times> real) list" where
  "get_charge_table_props pyfloat fs in_path =
     ebind (table_text_props fs in_path) (\<lambda>table_text.
     ebind (drop_hydrogen table_text) (\<lambda>table_text.
     label_rows pyfloat Map.empty table_text))"

section \<open>The local-property combiner\<close>

text \<open>\<^verbatim>\<open>combine_tables\<close>, lines 117-134 of \<^verbatim>\<open>write_electro_nbo.py\<close>. The dictionary
  \<^verbatim>\<open>overall_table\<close> is an association list in insertion order: assigning to a key
  that is present replaces its value in place, as a Python \<^verbatim>\<open>dict\<close> does. The loop
  over \<^verbatim>\<open>range(len(neutral_charge_table))\<close> is \<open>combine_loop_nbo\<close>; the \<^verbatim>\<open>and\<close> does
  not read the third table when the first comparison fails.\<close>

fun combine_loop_nbo ::
  "(string \<times> real) list \<Rightarrow> (string \<times> real) list \<Rightarrow> (string \<times> real) list \<Rightarrow> nat list \<Rightarrow>
   (string \<times> real list) list \<Rightarrow> error + (string \<times> real list) list" where
  "combine_loop_nbo neutral negative positive [] overall_table = Inr overall_table"
| "combine_loop_nbo neutral negative positive (i # rest) overall_table =
     ebind (py_index neutral (int i)) (\<lambda>n.
     ebind (py_index negative (int i)) (\<lambda>g.
       if fst n = fst g then
         ebind (py_index positive (int i)) (\<lambda>p.
           if fst n = fst p then
             combine_loop_nbo neutral negative positive rest
               (AList.update (fst n)
                  [snd n, snd p, snd g, snd n - snd p, snd g - snd n] overall_table)
           else Inl (Exception ''Tables do not correspond.''))
       else Inl (Exception ''Tables do not correspond.'')))"

definition combine_tables_nbo ::
  "(string \<times> real) list \<Rightarrow> (string \<times> real) list \<Rightarrow> (string \<times> real) list \<Rightarrow>
   error + (string \<times> real list) list" where
  "combine_tables_nbo neutral_charge_table negative_charge_table positive_charge_table =
     combine_loop_nbo neutral_charge_table negative_charge_table positive_charge_table
       [0 ..< length neutral_charge_table] []"

text \<open>\<^verbatim>\<open>combine_tables\<close>, lines 109-126 of \<^verbatim>\<open>write_electro_properties.py\<close>.\<close>

fun combine_loop_props ::
  "(string \<times> real) list \<Rightarrow> (string \<times> real) list \<Rightarrow> (string \<times> real) list \<Rightarrow> nat list \<Rightarrow>
   (string \<times> real list) list \<Rightarrow> error + (string \<times> real list) list" where
  "combine_loop_props neutral negative positive [] overall_table = Inr overall_table"
| "combine_loop_props neutral negative positive (i # rest) overall_table =
     ebind (py_index neutral (int i)) (\<lambda>n.
     ebind (py_index negative (int i)) (\<lambda>g.
       if fst n = fst g then
         ebind (py_index positive (int i)) (\<lambda>p.
           if fst n = fst p then
             combine_loop_props neutral negative positive rest
               (AList.update (fst n)
                  [snd n, snd p, snd g, snd n - snd p, snd g - snd n] overall_table)
           else Inl (Exception ''Tables do not correspond.''))
       else Inl (Exception ''Tables do not correspond.'')))"

definition combine_tables_props ::
  "(string \<times> real) list \<Rightarrow> (string \<times> real) list \<Rightarrow> (string \<times> real) list \<Rightarrow>
   error + (string \<times> real list) list" where
  "combine_tables_props neutral_charge_table negative_charge_table positive_charge_table =
     combine_loop_props neutral_charge_table negative_charge_table positive_charge_table
       [0 ..< length neutral_charge_table] []"

text \<open>The loop over \<^verbatim>\<open>overall_table.keys()\<close> of \<^verbatim>\<open>write_local_electro\<close> (lines 153-157
  of \<^verbatim>\<open>write_electro_nbo.py\<close>, lines 145-149 of \<^verbatim>\<open>write_electro_properties.py\<close>, the
  same text): each value list is extended by two products of its element at index 2.\<close>

fun extend_rows ::
  "(string \<times> real list) list \<Rightarrow> string list \<Rightarrow> real \<Rightarrow> real \<Rightarrow> error + (string \<times> real list) list" where
  "extend_rows overall_table [] global_nucleophilicity global_electrophilicity = Inr overall_table"
| "extend_rows overall_table (key # keys) global_nucleophilicity global_electrophilicity =
     (case map_of overall_table key of
        None \<Rightarrow> Inl KeyError
      | Some row \<Rightarrow>
          ebind (py_index row 2) (\<lambda>x.
          ebind (py_index row 2) (\<lambda>y.
          extend_rows
            (AList.update key
               (row @ [x * global_nucleophilicity, y * global_electrophilicity]) overall_table)
            keys global_nucleophilicity global_electrophilicity)))"

text \<open>\<^verbatim>\<open>path[:-4]\<close>.\<close>

definition strip_ext :: "string \<Rightarrow> string" where
  "strip_ext path = take (length path - 4) path"

text \<open>\<^verbatim>\<open>write_local_electro\<close>, lines 137-157 of \<^verbatim>\<open>write_electro_nbo.py\<close>. The result
  is the dictionary handed to \<^verbatim>\<open>pandas\<close>, whose rows are written in this order under
  the columns Element, Neutral, cation, anion, f-, f+, local_nucleophilicity and
  local_electrophilicity; the serialisation itself is not modelled.\<close>

definition write_local_electro_nbo ::
  "(string \<Rightarrow> real option) \<Rightarrow> (string \<rightharpoonup> string) \<Rightarrow> string \<Rightarrow> error + (string \<times> real list) list" where
  "write_local_electro_nbo pyfloat fs path =
     ebind (get_charge_table_nbo pyfloat fs path) (\<lambda>neutral_charge_table.
     ebind (get_charge_table_nbo pyfloat fs (strip_ext path @ ''-1.log'')) (\<lambda>negative_charge_table.
     ebind (get_charge_table_nbo pyfloat fs (strip_ext path @ ''+1.log'')) (\<lambda>positive_charge_table.
     ebind (combine_tables_nbo neutral_charge_table negative_charge_table positive_charge_table)
       (\<lambda>overall_table.
     ebind (get_homo_lumo_nbo pyfloat fs path) (\<lambda>(homo, lumo).
     ebind (get_properties_nbo homo lumo)
       (\<lambda>(_, _, _, global_electrophilicity, global_nucleophilicity).
     extend_rows overall_table (map fst overall_table)
       global_nucleophilicity global_electrophilicity))))))"

text \<open>\<^verbatim>\<open>write_local_electro\<close>, lines 129-149 of \<^verbatim>\<open>write_electro_properties.py\<close>.\<close>

definition write_local_electro_props ::
  "(string \<Rightarrow> real option) \<Rightarrow> (string \<rightharpoonup> string) \<Rightarrow> string \<Rightarrow> error + (string \<times> real list) list" where
  "write_local_electro_props pyfloat fs path =
     ebind (get_charge_table_props pyfloat fs path) (\<lambda>neutral_charge_table.
     ebind (get_charge_table_props pyfloat fs (strip_ext path @ ''-1.log'')) (\<lambda>negative_charge_table.
     ebind (get_charge_table_props pyfloat fs (strip_ext path @ ''+1.log'')) (\<lambda>positive_charge_table.
     ebind (combine_tables_props neutral_charge_table negative_charge_table positive_charge_table)
       (\<lambda>overall_table.
     ebind (get_homo_lumo_props pyfloat fs path) (\<lambda>(homo, lumo).
     ebind (get_properties_props homo lumo)
       (\<lambda>(_, _, _, global_electrophilicity, global_nucleophilicity).
     extend_rows overall_table (map fst overall_table)
       global_nucleophilicity global_electrophilicity))))))"

section \<open>The labels of the specification, and example logs\<close>

text \<open>The label as the specification words it: the element symbol followed by the
  number of times this symbol has occurred in the table up to and including the row.\<close>

definition occurrence_label :: "string list \<Rightarrow> nat \<Rightarrow> string" where
  "occurrence_label elems i = elems ! i @ py_str (count_list (take (Suc i) elems) (elems ! i))"

text \<open>A log in the Mulliken layout and one in the NBO layout, with the charge token of
  the first carbon left open, and a directory of three of each for the neutral, the
  anion (\<^verbatim>\<open>-1\<close>) and the cation (\<^verbatim>\<open>+1\<close>) run. They are the inputs of the closed
  examples.\<close>

definition example_mulliken_log :: "string \<Rightarrow> string" where
  "example_mulliken_log c =
     '' Mulliken atomic charges:\<newline>              1\<newline>     1  C    '' @ c @
     ''\<newline>     2  H    0.1\<newline>     3  C    0.25\<newline> Sum of Mulliken atomic charges =   0.0\<newline> Population analysis using the SCF density.\<newline> Alpha  occ. eigenvalues --   -0.5   -0.3\<newline> Alpha virt. eigenvalues --    0.1    0.2\<newline>''"

definition example_mulliken_fs :: "string \<rightharpoonup> string" where
  "example_mulliken_fs =
     [''m.log'' \<mapsto> example_mulliken_log ''0.5'',
      ''m-1.log'' \<mapsto> example_mulliken_log ''0.2'',
      ''m+1.log'' \<mapsto> example_mulliken_log ''0.1'']"

definition example_nbo_log :: "string \<Rightarrow> string" where
  "example_nbo_log c =
     '' '' @ SECTION_HEADER @ ''\<newline>'' @ TABLE_HEADER @
     ''\<newline>\<newline>                                       Natural Population\<newline>                Natural  -----------------------------------------------\<newline>    Atom  No    Charge         Core      Valence    Rydberg      Total\<newline> -----------------------------------------------------------------------\<newline>      C    1    '' @ c @
     ''\<newline>      H    2    0.1\<newline>      C    3    0.25\<newline>'' @ TABLE_END @
     ''\<newline> Population analysis using the SCF density.\<newline> Alpha  occ. eigenvalues --   -0.5   -0.3\<newline> Alpha virt. eigenvalues --    0.1    0.2\<newline>''"

definition example_nbo_fs :: "string \<rightharpoonup> string" where
  "example_nbo_fs =
     [''a.log'' \<mapsto> example_nbo_log ''0.5'',
      ''a-1.log'' \<mapsto> example_nbo_log ''0.2'',
      ''a+1.log'' \<mapsto> example_nbo_log ''0.1'']"

text \<open>A log with two population analyses, and a directory with that log, a file
  without any marker and a file with the population-analysis marker only.\<close>

definition example_orbital_log :: string where
  "example_orbital_log =
     '' Population analysis using the SCF density.\<newline> Alpha  occ. eigenvalues --   -0.9   -0.8\<newline> Alpha virt. eigenvalues --    0.7    0.8\<newline> Population analysis using the SCF density.\<newline> Alpha  occ. eigenvalues --   -0.6   -0.5\<newline> Alpha  occ. eigenvalues --   -0.4   -0.3\<newline> Alpha virt. eigenvalues --    0.1    0.2\<newline> Alpha virt. eigenvalues --    0.3    0.4\<newline>''"

definition example_bare_fs :: "string \<rightharpoonup> string" where
  "example_bare_fs =
     [''x.log'' \<mapsto> example_orbital_log,
      ''a.log'' \<mapsto> ''no marker in this file'',
      ''b.log'' \<mapsto> '' Population analysis using the SCF density.'']"

section \<open>Basic facts\<close>

lemma ebind_Inl [simp]: "ebind (Inl e) f = Inl e"
  by (simp add: ebind_def)

lemma ebind_Inr [simp]: "ebind (Inr x) f = f x"
  by (simp add: ebind_def)

lemma ebind_eq_Inr: "ebind m f = Inr y \<longleftrightarrow> (\<exists>x. m = Inr x \<and> f x = Inr y)"
  by (cases m) simp_all

lemma ebind_InrE:
  assumes "ebind m f = Inr y"
  obtains x where "m = Inr x" and "f x = Inr y"
  using assms by (auto simp: ebind_eq_Inr)

lemma py_index_nat: "py_index xs (int i) = (if i < length xs then Inr (xs ! i) else Inl IndexError)"
  by (simp add: py_index_def)

lemma py_index_0: "py_index xs 0 = (if xs = [] then Inl IndexError else Inr (xs ! 0))"
  by (simp add: py_index_def)

lemma py_index_1: "py_index xs 1 = (if 1 < length xs then Inr (xs ! 1) else Inl IndexError)"
  by (simp add: py_index_def)

lemma py_index_numeral:
  "py_index xs (numeral k) = (if numeral k < length xs then Inr (xs ! numeral k) else Inl IndexError)"
  by (simp add: py_index_def)

lemma py_index_last: "py_index xs (- 1) = (if xs = [] then Inl IndexError else Inr (last xs))"
  by (cases xs rule: rev_cases) (simp_all add: py_index_def nth_append)

lemma float_of_eq_Inr: "float_of pf s = Inr v \<longleftrightarrow> pf s = Some v"
  by (simp add: float_of_def split: option.splits)

text \<open>The functions that the two scripts share are the same functions.\<close>

lemma get_properties_props_nbo: "get_properties_props = get_properties_nbo"
  by (simp add: fun_eq_iff get_properties_props_def get_properties_nbo_def)

lemma get_homo_lumo_props_nbo: "get_homo_lumo_props = get_homo_lumo_nbo"
  by (simp add: fun_eq_iff get_homo_lumo_props_def get_homo_lumo_nbo_def)

lemma combine_loop_props_nbo:
  "combine_loop_props nt ng ps is ov = combine_loop_nbo nt ng ps is ov"
  by (induction "is" arbitrary: ov) (simp_all cong: if_cong)

lemma combine_tables_props_nbo: "combine_tables_props = combine_tables_nbo"
  by (simp add: fun_eq_iff combine_tables_props_def combine_tables_nbo_def combine_loop_props_nbo)

text \<open>The Mulliken and the NBO example, evaluated.\<close>

lemma example_mulliken_rows:
  "table_text_props example_mulliken_fs ''m.log'' =
     Inr [[''C'', ''0.5''], [''H'', ''0.1''], [''C'', ''0.25'']]"
  by code_simp

lemma example_mulliken_table:
  "get_charge_table_props dec_float example_mulliken_fs ''m.log'' =
     Inr [(''C1'', 0.5), (''C2'', 0.25)]"
  by code_simp

lemma example_mulliken_output:
  "write_local_electro_props dec_float example_mulliken_fs ''m.log'' =
     Inr [(''C1'', [0.5, 0.1, 0.2, 0.4, - 0.3, 0.2 * (1 / 0.34015), 0.2 * 0.34015]),
          (''C2'', [0.25, 0.25, 0.25, 0, 0, 0.25 * (1 / 0.34015), 0.25 * 0.34015])]"
  by code_simp

lemma example_nbo_rows:
  "table_text_nbo example_nbo_fs ''a.log'' =
     Inr [[''C'', ''1'', ''0.5''], [''H'', ''2'', ''0.1''], [''C'', ''3'', ''0.25'']]"
  by code_simp

lemma example_nbo_table:
  "get_charge_table_nbo dec_float example_nbo_fs ''a.log'' =
     Inr [(''C1'', 0.5), (''C3'', 0.25)]"
  by code_simp

lemma example_nbo_output:
  "write_local_electro_nbo dec_float example_nbo_fs ''a.log'' =
     Inr [(''C1'', [0.5, 0.1, 0.2, 0.4, - 0.3, 0.2 * (1 / 0.34015), 0.2 * 0.34015]),
          (''C3'', [0.25, 0.25, 0.25, 0, 0, 0.25 * (1 / 0.34015), 0.25 * 0.34015])]"
  by code_simp

section \<open>Properties of the global-property calculator\<close>

text \<open>The three divisions of \<^verbatim>\<open>get_properties\<close>, by cases on their divisors.\<close>

lemma get_properties_nbo_cases:
  "get_properties_nbo homo lumo =
     (let en = (- 1 * (27.212 * homo + 27.212 * lumo)) / 2;
          h = 27.212 * lumo - 27.212 * homo
      in if h = 0 then Inl ZeroDivisionError
         else if en\<^sup>2 / (2 * h) = 0 then Inl ZeroDivisionError
         else Inr (en, h, 1 / (2 * h), en\<^sup>2 / (2 * h), 1 / (en\<^sup>2 / (2 * h))))"
proof -
  define h where "h = 27.212 * lumo - 27.212 * homo"
  define en where "en = (- 1 * (27.212 * homo + 27.212 * lumo)) / 2"
  have gp: "get_properties_nbo homo lumo =
      ebind (py_div 1 (2 * h)) (\<lambda>s. ebind (py_div (en\<^sup>2) (2 * h)) (\<lambda>ge.
        ebind (py_div 1 ge) (\<lambda>gn. Inr (en, h, s, ge, gn))))"
    unfolding get_properties_nbo_def Let_def h_def en_def by (rule refl)
  have "get_properties_nbo homo lumo =
      (if h = 0 then Inl ZeroDivisionError
         else if en\<^sup>2 / (2 * h) = 0 then Inl ZeroDivisionError
         else Inr (en, h, 1 / (2 * h), en\<^sup>2 / (2 * h), 1 / (en\<^sup>2 / (2 * h))))"
    unfolding gp by (simp add: py_div_def)
  then show ?thesis
    unfolding Let_def h_def en_def .
qed

lemma get_properties_example:
  "get_properties_props (- 0.3) 0.1 = Inr (2.7212, 10.8848, 1 / 21.7696, 0.34015, 1 / 0.34015)"
  by (simp add: get_properties_props_nbo get_properties_nbo_cases power2_eq_square)






section \<open>Properties of the local-property combiner\<close>

text \<open>One round of the loop of \<^verbatim>\<open>combine_tables\<close>, in the order of its reads.\<close>

lemma combine_loop_nbo_step:
  "combine_loop_nbo nt ng ps (i # rest) ov =
     (if \<not> i < length nt then Inl IndexError
      else if \<not> i < length ng then Inl IndexError
      else if fst (nt ! i) \<noteq> fst (ng ! i) then Inl (Exception ''Tables do not correspond.'')
      else if \<not> i < length ps then Inl IndexError
      else if fst (nt ! i) \<noteq> fst (ps ! i) then Inl (Exception ''Tables do not correspond.'')
      else combine_loop_nbo nt ng ps rest
             (AList.update (fst (nt ! i))
               [snd (nt ! i), snd (ps ! i), snd (ng ! i),
                snd (nt ! i) - snd (ps ! i), snd (ng ! i) - snd (nt ! i)] ov))"
  by (simp add: py_index_nat)

lemma combine_loop_nbo_errors:
  "combine_loop_nbo nt ng ps is ov = Inl e \<Longrightarrow>
     e = IndexError \<or> e = Exception ''Tables do not correspond.''"
  by (induction "is" arbitrary: ov) (auto simp: combine_loop_nbo_step simp del: combine_loop_nbo.simps(2) split: if_splits)

lemma combine_loop_nbo_in_range_errors:
  "combine_loop_nbo nt ng ps is ov = Inl e \<Longrightarrow>
   \<forall>i\<in>set is. i < length nt \<and> i < length ng \<and> i < length ps \<Longrightarrow>
     e = Exception ''Tables do not correspond.''"
  by (induction "is" arbitrary: ov) (auto simp: combine_loop_nbo_step simp del: combine_loop_nbo.simps(2) split: if_splits)

lemma combine_loop_nbo_Inr:
  "combine_loop_nbo nt ng ps is ov = Inr r \<Longrightarrow> i \<in> set is \<Longrightarrow>
     i < length nt \<and> i < length ng \<and> i < length ps \<and>
     fst (nt ! i) = fst (ng ! i) \<and> fst (nt ! i) = fst (ps ! i)"
  by (induction "is" arbitrary: ov) (auto simp: combine_loop_nbo_step simp del: combine_loop_nbo.simps(2) split: if_splits)

lemma combine_loop_nbo_aligned:
  "\<forall>i\<in>set is. i < length nt \<and> i < length ng \<and> i < length ps \<and>
       fst (nt ! i) = fst (ng ! i) \<and> fst (nt ! i) = fst (ps ! i) \<Longrightarrow>
   combine_loop_nbo nt ng ps is ov =
     Inr (fold (\<lambda>i. AList.update (fst (nt ! i))
               [snd (nt ! i), snd (ps ! i), snd (ng ! i),
                snd (nt ! i) - snd (ps ! i), snd (ng ! i) - snd (nt ! i)]) is ov)"
proof (induction "is" arbitrary: ov)
  case Nil
  show ?case by simp
next
  case (Cons i "is")
  from Cons.prems have here: "i < length nt" "i < length ng" "i < length ps"
      "fst (nt ! i) = fst (ng ! i)" "fst (nt ! i) = fst (ps ! i)"
    by (meson list.set_intros)+
  from Cons.prems have rest: "\<forall>i\<in>set is. i < length nt \<and> i < length ng \<and> i < length ps \<and>
       fst (nt ! i) = fst (ng ! i) \<and> fst (nt ! i) = fst (ps ! i)"
    by (meson list.set_intros)
  have "combine_loop_nbo nt ng ps (i # is) ov =
      combine_loop_nbo nt ng ps is
        (AList.update (fst (nt ! i))
           [snd (nt ! i), snd (ps ! i), snd (ng ! i),
            snd (nt ! i) - snd (ps ! i), snd (ng ! i) - snd (nt ! i)] ov)"
    unfolding combine_loop_nbo_step using here by simp
  then show ?case
    by (simp only: Cons.IH [OF rest] fold_simps)
qed

text \<open>Assignments to a dictionary in insertion order.\<close>

lemma set_update_subset: "set (AList.update k v al) \<subseteq> insert (k, v) (set al)"
  by (induction al) auto

lemma update_fresh: "k \<notin> fst ` set al \<Longrightarrow> AList.update k v al = al @ [(k, v)]"
  by (induction al) auto

lemma update_present:
  "distinct (map fst al) \<Longrightarrow> k \<in> fst ` set al \<Longrightarrow>
   AList.update k v al = map (\<lambda>(k', r). if k' = k then (k', v) else (k', r)) al"
proof (induction al)
  case Nil
  then show ?case by simp
next
  case (Cons p al)
  show ?case
  proof (cases "fst p = k")
    case True
    with Cons.prems have "k \<notin> fst ` set al" by auto
    then have "map (\<lambda>(k', r). if k' = k then (k', v) else (k', r)) al = al"
      by (induction al) auto
    with True show ?thesis by (cases p) simp
  next
    case False
    with Cons show ?thesis by (cases p) auto
  qed
qed

lemma map_of_distinct_mem: "distinct (map fst al) \<Longrightarrow> (k, v) \<in> set al \<Longrightarrow> map_of al k = Some v"
  by simp

lemma fold_update_distinct:
  "distinct (map f is) \<Longrightarrow> f ` set is \<inter> fst ` set ov = {} \<Longrightarrow>
   fold (\<lambda>i. AList.update (f i) (g i)) is ov = ov @ map (\<lambda>i. (f i, g i)) is"
proof (induction "is" arbitrary: ov)
  case Nil
  then show ?case by simp
next
  case (Cons i "is")
  from Cons.prems have fresh: "f i \<notin> fst ` set ov" by auto
  have "f ` set is \<inter> fst ` set (ov @ [(f i, g i)]) = {}"
    using Cons.prems by auto
  with Cons.IH [of "ov @ [(f i, g i)]"] Cons.prems fresh show ?case
    by (simp add: update_fresh)
qed

lemma fold_update_keys:
  "fst ` set (fold (\<lambda>i. AList.update (f i) (g i)) is ov) = fst ` set ov \<union> f ` set is"
  by (induction "is" arbitrary: ov) (auto simp: AList.dom_update)

lemma fold_update_distinct_keys:
  "distinct (map fst ov) \<Longrightarrow> distinct (map fst (fold (\<lambda>i. AList.update (f i) (g i)) is ov))"
  by (induction "is" arbitrary: ov) (simp_all add: AList.distinct_update)

lemma fold_update_rows:
  "(k, row) \<in> set (fold (\<lambda>i. AList.update (f i) (g i)) is ov) \<Longrightarrow>
     (k, row) \<in> set ov \<or> (\<exists>i\<in>set is. k = f i \<and> row = g i)"
proof (induction "is" arbitrary: ov)
  case Nil
  then show ?case by simp
next
  case (Cons i "is")
  from Cons.prems have "(k, row) \<in> set (fold (\<lambda>i. AList.update (f i) (g i)) is (AList.update (f i) (g i) ov))"
    by simp
  from Cons.IH [OF this] show ?case
  proof
    assume "(k, row) \<in> set (AList.update (f i) (g i) ov)"
    then have "(k, row) \<in> set ov \<or> (k = f i \<and> row = g i)"
      using set_update_subset [of "f i" "g i" ov] by auto
    then show ?thesis by auto
  next
    assume "\<exists>j\<in>set is. k = f j \<and> row = g j"
    then show ?thesis by auto
  qed
qed

lemma combine_tables_nbo_keys:
  "combine_tables_nbo nt ng ps = Inr ov \<Longrightarrow> fst ` set ov = fst ` set nt"
proof -
  assume ok: "combine_tables_nbo nt ng ps = Inr ov"
  have al: "\<forall>i\<in>set [0..<length nt]. i < length nt \<and> i < length ng \<and> i < length ps \<and>
       fst (nt ! i) = fst (ng ! i) \<and> fst (nt ! i) = fst (ps ! i)"
    using ok [unfolded combine_tables_nbo_def] by (blast dest: combine_loop_nbo_Inr)
  have "ov = fold (\<lambda>i. AList.update (fst (nt ! i))
               [snd (nt ! i), snd (ps ! i), snd (ng ! i),
                snd (nt ! i) - snd (ps ! i), snd (ng ! i) - snd (nt ! i)]) [0..<length nt] []"
    using ok combine_loop_nbo_aligned [OF al, of "[]"] unfolding combine_tables_nbo_def by simp
  then have "fst ` set ov = (\<lambda>i. fst (nt ! i)) ` set [0..<length nt]"
    by (simp add: fold_update_keys)
  also have "\<dots> = set (map (\<lambda>i. fst (nt ! i)) [0..<length nt])"
    by simp
  also have "map (\<lambda>i. fst (nt ! i)) [0..<length nt] = map fst nt"
    by (rule nth_equalityI) simp_all
  finally show ?thesis by simp
qed

text \<open>The loop that extends the rows reads index 2 of each row.\<close>

lemma extend_rows_map:
  "distinct (map fst ov) \<Longrightarrow> set keys \<subseteq> fst ` set ov \<Longrightarrow> distinct keys \<Longrightarrow>
   \<forall>p\<in>set ov. 2 < length (snd p) \<Longrightarrow>
   extend_rows ov keys gn ge =
     Inr (map (\<lambda>(k, row). if k \<in> set keys then (k, row @ [row ! 2 * gn, row ! 2 * ge])
                           else (k, row)) ov)"
proof (induction keys arbitrary: ov)
  case Nil
  then show ?case by (simp add: case_prod_unfold)
next
  case (Cons key keys)
  from Cons.prems obtain row where row: "(key, row) \<in> set ov" by auto
  with Cons.prems have look: "map_of ov key = Some row" by simp
  from row Cons.prems have len: "2 < length row" by auto
  define ov' where "ov' = AList.update key (row @ [row ! 2 * gn, row ! 2 * ge]) ov"
  have ov': "ov' = map (\<lambda>(k', r). if k' = key then (k', row @ [row ! 2 * gn, row ! 2 * ge]) else (k', r)) ov"
    unfolding ov'_def using Cons.prems by (intro update_present) auto
  have keys': "map fst ov' = map fst ov"
    unfolding ov' by (simp add: case_prod_unfold comp_def)
  have d: "distinct (map fst ov')" using Cons.prems keys' by simp
  have s: "set keys \<subseteq> fst ` set ov'"
    using Cons.prems keys' by (metis list.set_map set_subset_Cons subset_trans)
  have dk: "distinct keys" using Cons.prems by simp
  have l: "\<forall>p\<in>set ov'. 2 < length (snd p)"
    unfolding ov' using Cons.prems(4) len by (fastforce split: if_splits)
  have step: "extend_rows ov (key # keys) gn ge = extend_rows ov' keys gn ge"
    using look len by (simp add: py_index_def ov'_def)
  have fresh: "key \<notin> set keys" using Cons.prems by simp
  have same: "\<And>k r. (k, r) \<in> set ov \<Longrightarrow> k = key \<Longrightarrow> r = row"
    using look Cons.prems(1) by (metis map_of_distinct_mem option.inject)
  show ?case
    unfolding step Cons.IH [OF d s dk l]
    unfolding ov' using fresh same by (auto simp: case_prod_unfold)
qed

lemma extend_rows_keys:
  "extend_rows ov keys gn ge = Inr out \<Longrightarrow> map fst out = map fst ov"
proof (induction keys arbitrary: ov)
  case Nil
  then show ?case by simp
next
  case (Cons key keys)
  from Cons.prems obtain row x where look: "map_of ov key = Some row"
    and rest: "extend_rows (AList.update key (row @ [x * gn, x * ge]) ov) keys gn ge = Inr out"
    by (auto simp: ebind_eq_Inr split: option.splits)
  from look have "key \<in> set (map fst ov)"
    by (metis map_of_eq_None_iff option.distinct(1) set_map)
  then have "map fst (AList.update key (row @ [x * gn, x * ge]) ov) = map fst ov"
    by (simp add: update_keys)
  with Cons.IH [OF rest] show ?case by simp
qed

lemma example_extend_rows:
  "combine_tables_nbo [(''C1'', 0.5)] [(''C1'', 0.2)] [(''C1'', 0.1)] =
     Inr [(''C1'', [0.5, 0.1, 0.2, 0.4, - 0.3])] \<and>
   extend_rows [(''C1'', [0.5, 0.1, 0.2, 0.4, - 0.3])] [''C1''] 10 100 =
     Inr [(''C1'', [0.5, 0.1, 0.2, 0.4, - 0.3, 2, 20])]"
  by (simp add: combine_tables_nbo_def py_index_def upt_rec)

lemma example_combined:
  "combine_tables_nbo [(''C1'', 0.5), (''C3'', 0.25)] [(''C1'', 0.2), (''C3'', 0.25)]
     [(''C1'', 0.1), (''C3'', 0.25)] =
     Inr [(''C1'', [0.5, 0.1, 0.2, 0.4, - 0.3]), (''C3'', [0.25, 0.25, 0.25, 0, 0])]"
  by (simp add: combine_tables_nbo_def py_index_def upt_rec)

text \<open>
  Claim C4, as amended. For three charge tables of equal length \<open>N\<close> with identical
  labels at each index and, in addition, pairwise distinct labels within the table,
  \<^verbatim>\<open>combine_tables\<close> of either script returns exactly \<open>N\<close> entries, and the entry at
  index \<open>i\<close> is keyed by the label of atom \<open>i\<close> and holds the neutral, cation and anion
  charges, then f- \<open>= neutral - cation\<close> and f+ \<open>= anion - neutral\<close>. (\<open>ng\<close> is the
  table of the \<^verbatim>\<open>-1\<close> log, the anion; \<open>ps\<close> that of the \<^verbatim>\<open>+1\<close> log, the cation.)
\<close>

theorem combine_tables_entries:
  "length ng = length nt \<Longrightarrow> length ps = length nt \<Longrightarrow>
   (\<forall>i<length nt. fst (ng ! i) = fst (nt ! i) \<and> fst (ps ! i) = fst (nt ! i)) \<Longrightarrow>
   distinct (map fst nt) \<Longrightarrow>
   \<exists>ov. combine_tables_nbo nt ng ps = Inr ov \<and> combine_tables_props nt ng ps = Inr ov \<and>
        length ov = length nt \<and>
        (\<forall>i<length nt. ov ! i =
           (fst (nt ! i), [snd (nt ! i), snd (ps ! i), snd (ng ! i),
                           snd (nt ! i) - snd (ps ! i), snd (ng ! i) - snd (nt ! i)]))"
proof -
  assume len: "length ng = length nt" "length ps = length nt"
    and lab: "\<forall>i<length nt. fst (ng ! i) = fst (nt ! i) \<and> fst (ps ! i) = fst (nt ! i)"
    and dist: "distinct (map fst nt)"
  let ?row = "\<lambda>i. [snd (nt ! i), snd (ps ! i), snd (ng ! i),
                   snd (nt ! i) - snd (ps ! i), snd (ng ! i) - snd (nt ! i)]"
  let ?ov = "map (\<lambda>i. (fst (nt ! i), ?row i)) [0..<length nt]"
  have al: "\<forall>i\<in>set [0..<length nt]. i < length nt \<and> i < length ng \<and> i < length ps \<and>
       fst (nt ! i) = fst (ng ! i) \<and> fst (nt ! i) = fst (ps ! i)"
    using len lab by simp
  have keys: "map (\<lambda>i. fst (nt ! i)) [0..<length nt] = map fst nt"
    by (rule nth_equalityI) simp_all
  have "combine_tables_nbo nt ng ps = Inr (fold (\<lambda>i. AList.update (fst (nt ! i)) (?row i)) [0..<length nt] [])"
    unfolding combine_tables_nbo_def by (rule combine_loop_nbo_aligned [OF al])
  also have "fold (\<lambda>i. AList.update (fst (nt ! i)) (?row i)) [0..<length nt] [] = [] @ ?ov"
    by (rule fold_update_distinct) (simp_all add: keys dist)
  finally have nbo: "combine_tables_nbo nt ng ps = Inr ?ov" by simp
  then have "combine_tables_props nt ng ps = Inr ?ov"
    by (simp only: combine_tables_props_nbo)
  with nbo show ?thesis
    by (intro exI [of _ ?ov]) simp
qed

theorem combine_tables_entries_witness:
  "\<exists>ov. combine_tables_nbo [(''C1'', 0.5), (''N2'', 0.25)] [(''C1'', 0.2), (''N2'', 0.75)]
           [(''C1'', 0.1), (''N2'', 0.5)] = Inr ov \<and>
        combine_tables_props [(''C1'', 0.5), (''N2'', 0.25)] [(''C1'', 0.2), (''N2'', 0.75)]
           [(''C1'', 0.1), (''N2'', 0.5)] = Inr ov \<and>
        length ov = 2 \<and>
        ov ! 0 = (''C1'', [0.5, 0.1, 0.2, 0.4, - 0.3]) \<and>
        ov ! 1 = (''N2'', [0.25, 0.5, 0.75, - 0.25, 0.5])"
  using combine_tables_entries [of "[(''C1'', 0.2), (''N2'', 0.75)]" "[(''C1'', 0.5), (''N2'', 0.25)]"
      "[(''C1'', 0.1), (''N2'', 0.5)]"]
  by (simp add: All_less_Suc2 numeral_2_eq_2)

text \<open>Claim C4 as stated fails when a label repeats within the tables: the dictionary
  keeps one entry per label, here one entry for two atoms, with the charges of the
  second.\<close>

theorem combine_tables_entries_counterexample:
  "length [(''C1'', 1::real), (''C1'', 2)] = 2 \<and>
   combine_tables_nbo [(''C1'', 1), (''C1'', 2)] [(''C1'', 1), (''C1'', 2)] [(''C1'', 1), (''C1'', 2)]
     = Inr [(''C1'', [2, 2, 2, 0, 0])] \<and>
   combine_tables_props [(''C1'', 1), (''C1'', 2)] [(''C1'', 1), (''C1'', 2)] [(''C1'', 1), (''C1'', 2)]
     = Inr [(''C1'', [2, 2, 2, 0, 0])]"
  by (simp add: combine_tables_props_nbo combine_tables_nbo_def py_index_def upt_rec)

text \<open>
  Claim C2, as amended. If the three charge tables differ in label at a position that
  all three have, or the anion or the cation table is shorter than the neutral one,
  \<^verbatim>\<open>combine_tables\<close> of either script returns no table: it raises
  \<^verbatim>\<open>Exception("Tables do not correspond.")\<close> or \<^verbatim>\<open>IndexError\<close>, neither of which carries
  a position or a label; for three tables of equal length it is the former.
\<close>

theorem combine_tables_mismatch:
  "(\<exists>i. i < length nt \<and> i < length ng \<and> i < length ps \<and>
        \<not> (fst (nt ! i) = fst (ng ! i) \<and> fst (nt ! i) = fst (ps ! i)))
     \<or> length ng < length nt \<or> length ps < length nt \<Longrightarrow>
   (combine_tables_nbo nt ng ps = Inl (Exception ''Tables do not correspond.'') \<or>
    combine_tables_nbo nt ng ps = Inl IndexError) \<and>
   (length ng = length nt \<and> length ps = length nt \<longrightarrow>
      combine_tables_nbo nt ng ps = Inl (Exception ''Tables do not correspond.'')) \<and>
   combine_tables_props nt ng ps = combine_tables_nbo nt ng ps"
proof -
  assume bad: "(\<exists>i. i < length nt \<and> i < length ng \<and> i < length ps \<and>
        \<not> (fst (nt ! i) = fst (ng ! i) \<and> fst (nt ! i) = fst (ps ! i)))
     \<or> length ng < length nt \<or> length ps < length nt"
  have no_result: "combine_tables_nbo nt ng ps \<noteq> Inr r" for r
  proof
    assume ok: "combine_tables_nbo nt ng ps = Inr r"
    have all: "i < length ng \<and> i < length ps \<and>
        fst (nt ! i) = fst (ng ! i) \<and> fst (nt ! i) = fst (ps ! i)" if "i < length nt" for i
    proof -
      from that have "i \<in> set [0..<length nt]" by simp
      with ok [unfolded combine_tables_nbo_def] show ?thesis
        by (blast dest: combine_loop_nbo_Inr)
    qed
    from bad show False
    proof (elim disjE exE)
      fix i
      assume "i < length nt \<and> i < length ng \<and> i < length ps \<and>
        \<not> (fst (nt ! i) = fst (ng ! i) \<and> fst (nt ! i) = fst (ps ! i))"
      with all [of i] show False by blast
    next
      assume "length ng < length nt"
      with all [of "length ng"] show False by simp
    next
      assume "length ps < length nt"
      with all [of "length ps"] show False by simp
    qed
  qed
  then obtain e where e: "combine_tables_nbo nt ng ps = Inl e"
    by (cases "combine_tables_nbo nt ng ps") auto
  then have kinds: "e = IndexError \<or> e = Exception ''Tables do not correspond.''"
    unfolding combine_tables_nbo_def by (rule combine_loop_nbo_errors)
  have equal: "e = Exception ''Tables do not correspond.''"
    if "length ng = length nt \<and> length ps = length nt"
    using e that unfolding combine_tables_nbo_def
    by (intro combine_loop_nbo_in_range_errors [of nt ng ps "[0..<length nt]" "[]" e]) simp_all
  show ?thesis
    using e kinds equal by (auto simp: combine_tables_props_nbo)
qed

theorem combine_tables_mismatch_witness:
  "combine_tables_nbo [(''C1'', 0.5)] [(''N1'', 0.2)] [(''C1'', 0.1)]
     = Inl (Exception ''Tables do not correspond.'') \<and>
   combine_tables_props [(''C1'', 0.5)] [(''N1'', 0.2)] [(''C1'', 0.1)]
     = Inl (Exception ''Tables do not correspond.'') \<and>
   combine_tables_nbo [(''C1'', 0.5), (''N2'', 0.5)] [(''C1'', 0.2)] [(''C1'', 0.1), (''N2'', 0.5)]
     = Inl IndexError"
proof -
  have a: "(\<exists>i. i < length [(''C1'', 0.5::real)] \<and> i < length [(''N1'', 0.2::real)] \<and>
          i < length [(''C1'', 0.1::real)] \<and>
        \<not> (fst ([(''C1'', 0.5::real)] ! i) = fst ([(''N1'', 0.2::real)] ! i) \<and>
           fst ([(''C1'', 0.5::real)] ! i) = fst ([(''C1'', 0.1::real)] ! i)))
     \<or> length [(''N1'', 0.2::real)] < length [(''C1'', 0.5::real)]
     \<or> length [(''C1'', 0.1::real)] < length [(''C1'', 0.5::real)]"
    by (intro disjI1 exI [of _ 0]) simp
  have b: "(\<exists>i. i < length [(''C1'', 0.5::real), (''N2'', 0.5)] \<and> i < length [(''C1'', 0.2::real)] \<and>
          i < length [(''C1'', 0.1::real), (''N2'', 0.5)] \<and>
        \<not> (fst ([(''C1'', 0.5::real), (''N2'', 0.5)] ! i) = fst ([(''C1'', 0.2::real)] ! i) \<and>
           fst ([(''C1'', 0.5::real), (''N2'', 0.5)] ! i) = fst ([(''C1'', 0.1::real), (''N2'', 0.5)] ! i)))
     \<or> length [(''C1'', 0.2::real)] < length [(''C1'', 0.5::real), (''N2'', 0.5)]
     \<or> length [(''C1'', 0.1::real), (''N2'', 0.5)] < length [(''C1'', 0.5::real), (''N2'', 0.5)]"
    by simp
  have c: "combine_tables_nbo [(''C1'', 0.5), (''N2'', 0.5)] [(''C1'', 0.2)] [(''C1'', 0.1), (''N2'', 0.5)]
     \<noteq> Inl (Exception ''Tables do not correspond.'')"
    by (simp add: combine_tables_nbo_def py_index_def upt_rec)
  show ?thesis
    using combine_tables_mismatch [OF a] combine_tables_mismatch [OF b] c by simp
qed

text \<open>Claim C2 as stated fails: a neutral table shorter than the other two, with equal
  labels on its length, is combined without an error; and mismatches at different
  positions with different labels raise one and the same exception value, which
  therefore identifies neither.\<close>

theorem combine_tables_mismatch_counterexample:
  "combine_tables_nbo [(''C1'', 0.5)] [(''C1'', 0.2), (''N2'', 0.1)] [(''C1'', 0.1), (''N2'', 0.3)]
     = Inr [(''C1'', [0.5, 0.1, 0.2, 0.4, - 0.3])] \<and>
   combine_tables_nbo [(''C1'', 0.5)] [(''N1'', 0.2)] [(''C1'', 0.1)]
     = Inl (Exception ''Tables do not correspond.'') \<and>
   combine_tables_nbo [(''C1'', 0.5), (''C2'', 0.5)] [(''C1'', 0.2), (''C2'', 0.2)]
       [(''C1'', 0.1), (''O2'', 0.1)]
     = Inl (Exception ''Tables do not correspond.'')"
  by (simp add: combine_tables_nbo_def py_index_def upt_rec)

lemma combine_then_extend:
  assumes ok: "combine_tables_nbo nt ng ps = Inr ov"
  shows "\<exists>out. extend_rows ov (map fst ov) gn ge = Inr out \<and> fst ` set out = fst ` set nt \<and>
     (\<forall>r\<in>set out. \<exists>i<length nt. i < length ng \<and> i < length ps \<and> fst r = fst (nt ! i) \<and>
        snd r = [snd (nt ! i), snd (ps ! i), snd (ng ! i),
                 snd (nt ! i) - snd (ps ! i), snd (ng ! i) - snd (nt ! i),
                 snd (ng ! i) * gn, snd (ng ! i) * ge])"
proof -
  let ?key = "\<lambda>i. fst (nt ! i)"
  let ?row = "\<lambda>i. [snd (nt ! i), snd (ps ! i), snd (ng ! i),
                   snd (nt ! i) - snd (ps ! i), snd (ng ! i) - snd (nt ! i)]"
  define ext where "ext = (\<lambda>p :: string \<times> real list. (fst p, snd p @ [snd p ! 2 * gn, snd p ! 2 * ge]))"
  define out where "out = map ext ov"
  have al: "\<forall>i\<in>set [0..<length nt]. i < length nt \<and> i < length ng \<and> i < length ps \<and>
       fst (nt ! i) = fst (ng ! i) \<and> fst (nt ! i) = fst (ps ! i)"
    using ok [unfolded combine_tables_nbo_def] by (blast dest: combine_loop_nbo_Inr)
  have ov: "ov = fold (\<lambda>i. AList.update (?key i) (?row i)) [0..<length nt] []"
    using ok combine_loop_nbo_aligned [OF al, of "[]"] unfolding combine_tables_nbo_def by simp
  have dist: "distinct (map fst ov)"
    unfolding ov by (rule fold_update_distinct_keys) simp
  have rows: "\<exists>i<length nt. p = (?key i, ?row i)" if "p \<in> set ov" for p
  proof -
    from that have "(fst p, snd p) \<in> set (fold (\<lambda>i. AList.update (?key i) (?row i)) [0..<length nt] [])"
      unfolding ov by simp
    from fold_update_rows [OF this] obtain i
      where "i \<in> set [0..<length nt]" "fst p = ?key i" "snd p = ?row i"
      by auto
    then show ?thesis
      by (intro exI [of _ i]) (simp add: prod_eq_iff)
  qed
  have long: "\<forall>p\<in>set ov. 2 < length (snd p)"
    using rows by fastforce
  have "extend_rows ov (map fst ov) gn ge =
      Inr (map (\<lambda>(k, row). if k \<in> set (map fst ov) then (k, row @ [row ! 2 * gn, row ! 2 * ge])
                           else (k, row)) ov)"
    using dist long by (intro extend_rows_map) simp_all
  also have "map (\<lambda>(k, row). if k \<in> set (map fst ov) then (k, row @ [row ! 2 * gn, row ! 2 * ge])
                           else (k, row)) ov = out"
    unfolding out_def ext_def by (rule map_cong) (auto simp: rev_image_eqI)
  finally have ext: "extend_rows ov (map fst ov) gn ge = Inr out" .
  have "fst ` set out = fst ` set ov"
    unfolding out_def ext_def by (simp add: image_image)
  then have keys: "fst ` set out = fst ` set nt"
    using combine_tables_nbo_keys [OF ok] by simp
  have each: "\<forall>r\<in>set out. \<exists>i<length nt. i < length ng \<and> i < length ps \<and> fst r = fst (nt ! i) \<and>
        snd r = [snd (nt ! i), snd (ps ! i), snd (ng ! i),
                 snd (nt ! i) - snd (ps ! i), snd (ng ! i) - snd (nt ! i),
                 snd (ng ! i) * gn, snd (ng ! i) * ge]"
  proof
    fix r
    assume "r \<in> set out"
    then obtain p where p: "p \<in> set ov" and r: "r = ext p"
      unfolding out_def by auto
    from rows [OF p] obtain i where i: "i < length nt" "p = (?key i, ?row i)"
      by blast
    from al i(1) have "i < length ng \<and> i < length ps" by simp
    then show "\<exists>i<length nt. i < length ng \<and> i < length ps \<and> fst r = fst (nt ! i) \<and>
        snd r = [snd (nt ! i), snd (ps ! i), snd (ng ! i),
                 snd (nt ! i) - snd (ps ! i), snd (ng ! i) - snd (nt ! i),
                 snd (ng ! i) * gn, snd (ng ! i) * ge]"
      using i unfolding r ext_def by (intro exI [of _ i]) simp
  qed
  from ext keys each show ?thesis
    by blast
qed

lemma aligned_combined:
  assumes "length ng = length nt" and "length ps = length nt"
    and "\<forall>i<length nt. fst (ng ! i) = fst (nt ! i) \<and> fst (ps ! i) = fst (nt ! i)"
  shows "\<exists>ov. combine_tables_nbo nt ng ps = Inr ov"
proof -
  have "\<forall>i\<in>set [0..<length nt]. i < length nt \<and> i < length ng \<and> i < length ps \<and>
       fst (nt ! i) = fst (ng ! i) \<and> fst (nt ! i) = fst (ps ! i)"
    using assms by simp
  from combine_loop_nbo_aligned [OF this, of "[]"] show ?thesis
    unfolding combine_tables_nbo_def by blast
qed

lemma write_local_electro_nbo_rows:
  assumes "write_local_electro_nbo pf fs path = Inr out"
  shows "\<exists>nt ng ps homo lumo en h s ge gn.
     get_charge_table_nbo pf fs path = Inr nt \<and>
     get_charge_table_nbo pf fs (strip_ext path @ ''-1.log'') = Inr ng \<and>
     get_charge_table_nbo pf fs (strip_ext path @ ''+1.log'') = Inr ps \<and>
     get_homo_lumo_nbo pf fs path = Inr (homo, lumo) \<and>
     get_properties_nbo homo lumo = Inr (en, h, s, ge, gn) \<and>
     fst ` set out = fst ` set nt \<and>
     (\<forall>r\<in>set out. \<exists>i<length nt. i < length ng \<and> i < length ps \<and> fst r = fst (nt ! i) \<and>
        snd r = [snd (nt ! i), snd (ps ! i), snd (ng ! i),
                 snd (nt ! i) - snd (ps ! i), snd (ng ! i) - snd (nt ! i),
                 snd (ng ! i) * gn, snd (ng ! i) * ge])"
proof -
  from assms [unfolded write_local_electro_nbo_def]
  obtain nt where nt: "get_charge_table_nbo pf fs path = Inr nt"
    and r1: "ebind (get_charge_table_nbo pf fs (strip_ext path @ ''-1.log'')) (\<lambda>negative_charge_table.
     ebind (get_charge_table_nbo pf fs (strip_ext path @ ''+1.log'')) (\<lambda>positive_charge_table.
     ebind (combine_tables_nbo nt negative_charge_table positive_charge_table)
       (\<lambda>overall_table.
     ebind (get_homo_lumo_nbo pf fs path) (\<lambda>(homo, lumo).
     ebind (get_properties_nbo homo lumo)
       (\<lambda>(_, _, _, global_electrophilicity, global_nucleophilicity).
     extend_rows overall_table (map fst overall_table)
       global_nucleophilicity global_electrophilicity))))) = Inr out"
    by (rule ebind_InrE)
  from r1 obtain ng where ng: "get_charge_table_nbo pf fs (strip_ext path @ ''-1.log'') = Inr ng"
    and r2: "ebind (get_charge_table_nbo pf fs (strip_ext path @ ''+1.log'')) (\<lambda>positive_charge_table.
     ebind (combine_tables_nbo nt ng positive_charge_table)
       (\<lambda>overall_table.
     ebind (get_homo_lumo_nbo pf fs path) (\<lambda>(homo, lumo).
     ebind (get_properties_nbo homo lumo)
       (\<lambda>(_, _, _, global_electrophilicity, global_nucleophilicity).
     extend_rows overall_table (map fst overall_table)
       global_nucleophilicity global_electrophilicity)))) = Inr out"
    by (rule ebind_InrE)
  from r2 obtain ps where ps: "get_charge_table_nbo pf fs (strip_ext path @ ''+1.log'') = Inr ps"
    and r3: "ebind (combine_tables_nbo nt ng ps)
       (\<lambda>overall_table.
     ebind (get_homo_lumo_nbo pf fs path) (\<lambda>(homo, lumo).
     ebind (get_properties_nbo homo lumo)
       (\<lambda>(_, _, _, global_electrophilicity, global_nucleophilicity).
     extend_rows overall_table (map fst overall_table)
       global_nucleophilicity global_electrophilicity))) = Inr out"
    by (rule ebind_InrE)
  from r3 obtain ov where ov: "combine_tables_nbo nt ng ps = Inr ov"
    and r4: "ebind (get_homo_lumo_nbo pf fs path) (\<lambda>(homo, lumo).
     ebind (get_properties_nbo homo lumo)
       (\<lambda>(_, _, _, global_electrophilicity, global_nucleophilicity).
     extend_rows ov (map fst ov) global_nucleophilicity global_electrophilicity)) = Inr out"
    by (rule ebind_InrE)
  from r4 obtain hl where hl: "get_homo_lumo_nbo pf fs path = Inr hl"
    and r5: "(case hl of (homo, lumo) \<Rightarrow>
     ebind (get_properties_nbo homo lumo)
       (\<lambda>(_, _, _, global_electrophilicity, global_nucleophilicity).
     extend_rows ov (map fst ov) global_nucleophilicity global_electrophilicity)) = Inr out"
    by (rule ebind_InrE)
  obtain homo lumo where hl_eq: "hl = (homo, lumo)"
    by (cases hl)
  from r5 [unfolded hl_eq prod.case] obtain gp
    where gp: "get_properties_nbo homo lumo = Inr gp"
    and r6: "(case gp of (_, _, _, global_electrophilicity, global_nucleophilicity) \<Rightarrow>
     extend_rows ov (map fst ov) global_nucleophilicity global_electrophilicity) = Inr out"
    by (rule ebind_InrE)
  obtain en h s ge gn where gp_eq: "gp = (en, h, s, ge, gn)"
    by (cases gp)
  from r6 have out: "extend_rows ov (map fst ov) gn ge = Inr out"
    by (simp add: gp_eq)
  from combine_then_extend [OF ov, of gn ge] obtain out'
    where out': "extend_rows ov (map fst ov) gn ge = Inr out'"
      and keys: "fst ` set out' = fst ` set nt"
      and each: "\<forall>r\<in>set out'. \<exists>i<length nt. i < length ng \<and> i < length ps \<and> fst r = fst (nt ! i) \<and>
        snd r = [snd (nt ! i), snd (ps ! i), snd (ng ! i),
                 snd (nt ! i) - snd (ps ! i), snd (ng ! i) - snd (nt ! i),
                 snd (ng ! i) * gn, snd (ng ! i) * ge]"
    by (elim exE conjE)
  from out out' have same: "out' = out" by simp
  show ?thesis
    by (intro exI conjI)
      (rule nt ng ps hl [unfolded hl_eq] gp [unfolded gp_eq] keys [unfolded same] each [unfolded same])+
qed

lemma write_local_electro_props_rows:
  assumes "write_local_electro_props pf fs path = Inr out"
  shows "\<exists>nt ng ps homo lumo en h s ge gn.
     get_charge_table_props pf fs path = Inr nt \<and>
     get_charge_table_props pf fs (strip_ext path @ ''-1.log'') = Inr ng \<and>
     get_charge_table_props pf fs (strip_ext path @ ''+1.log'') = Inr ps \<and>
     get_homo_lumo_props pf fs path = Inr (homo, lumo) \<and>
     get_properties_props homo lumo = Inr (en, h, s, ge, gn) \<and>
     fst ` set out = fst ` set nt \<and>
     (\<forall>r\<in>set out. \<exists>i<length nt. i < length ng \<and> i < length ps \<and> fst r = fst (nt ! i) \<and>
        snd r = [snd (nt ! i), snd (ps ! i), snd (ng ! i),
                 snd (nt ! i) - snd (ps ! i), snd (ng ! i) - snd (nt ! i),
                 snd (ng ! i) * gn, snd (ng ! i) * ge])"
proof -
  from assms [unfolded write_local_electro_props_def]
  obtain nt where nt: "get_charge_table_props pf fs path = Inr nt"
    and r1: "ebind (get_charge_table_props pf fs (strip_ext path @ ''-1.log'')) (\<lambda>negative_charge_table.
     ebind (get_charge_table_props pf fs (strip_ext path @ ''+1.log'')) (\<lambda>positive_charge_table.
     ebind (combine_tables_props nt negative_charge_table positive_charge_table)
       (\<lambda>overall_table.
     ebind (get_homo_lumo_props pf fs path) (\<lambda>(homo, lumo).
     ebind (get_properties_props homo lumo)
       (\<lambda>(_, _, _, global_electrophilicity, global_nucleophilicity).
     extend_rows overall_table (map fst overall_table)
       global_nucleophilicity global_electrophilicity))))) = Inr out"
    by (rule ebind_InrE)
  from r1 obtain ng where ng: "get_charge_table_props pf fs (strip_ext path @ ''-1.log'') = Inr ng"
    and r2: "ebind (get_charge_table_props pf fs (strip_ext path @ ''+1.log'')) (\<lambda>positive_charge_table.
     ebind (combine_tables_props nt ng positive_charge_table)
       (\<lambda>overall_table.
     ebind (get_homo_lumo_props pf fs path) (\<lambda>(homo, lumo).
     ebind (get_properties_props homo lumo)
       (\<lambda>(_, _, _, global_electrophilicity, global_nucleophilicity).
     extend_rows overall_table (map fst overall_table)
       global_nucleophilicity global_electrophilicity)))) = Inr out"
    by (rule ebind_InrE)
  from r2 obtain ps where ps: "get_charge_table_props pf fs (strip_ext path @ ''+1.log'') = Inr ps"
    and r3: "ebind (combine_tables_props nt ng ps)
       (\<lambda>overall_table.
     ebind (get_homo_lumo_props pf fs path) (\<lambda>(homo, lumo).
     ebind (get_properties_props homo lumo)
       (\<lambda>(_, _, _, global_electrophilicity, global_nucleophilicity).
     extend_rows overall_table (map fst overall_table)
       global_nucleophilicity global_electrophilicity))) = Inr out"
    by (rule ebind_InrE)
  from r3 obtain ov where ov: "combine_tables_props nt ng ps = Inr ov"
    and r4: "ebind (get_homo_lumo_props pf fs path) (\<lambda>(homo, lumo).
     ebind (get_properties_props homo lumo)
       (\<lambda>(_, _, _, global_electrophilicity, global_nucleophilicity).
     extend_rows ov (map fst ov) global_nucleophilicity global_electrophilicity)) = Inr out"
    by (rule ebind_InrE)
  from r4 obtain hl where hl: "get_homo_lumo_props pf fs path = Inr hl"
    and r5: "(case hl of (homo, lumo) \<Rightarrow>
     ebind (get_properties_props homo lumo)
       (\<lambda>(_, _, _, global_electrophilicity, global_nucleophilicity).
     extend_rows ov (map fst ov) global_nucleophilicity global_electrophilicity)) = Inr out"
    by (rule ebind_InrE)
  obtain homo lumo where hl_eq: "hl = (homo, lumo)"
    by (cases hl)
  from r5 [unfolded hl_eq prod.case] obtain gp
    where gp: "get_properties_props homo lumo = Inr gp"
    and r6: "(case gp of (_, _, _, global_electrophilicity, global_nucleophilicity) \<Rightarrow>
     extend_rows ov (map fst ov) global_nucleophilicity global_electrophilicity) = Inr out"
    by (rule ebind_InrE)
  obtain en h s ge gn where gp_eq: "gp = (en, h, s, ge, gn)"
    by (cases gp)
  from r6 have out: "extend_rows ov (map fst ov) gn ge = Inr out"
    by (simp add: gp_eq)
  from ov have "combine_tables_nbo nt ng ps = Inr ov"
    by (simp only: combine_tables_props_nbo)
  from combine_then_extend [OF this, of gn ge] obtain out'
    where out': "extend_rows ov (map fst ov) gn ge = Inr out'"
      and keys: "fst ` set out' = fst ` set nt"
      and each: "\<forall>r\<in>set out'. \<exists>i<length nt. i < length ng \<and> i < length ps \<and> fst r = fst (nt ! i) \<and>
        snd r = [snd (nt ! i), snd (ps ! i), snd (ng ! i),
                 snd (nt ! i) - snd (ps ! i), snd (ng ! i) - snd (nt ! i),
                 snd (ng ! i) * gn, snd (ng ! i) * ge]"
    by (elim exE conjE)
  from out out' have same: "out' = out" by simp
  show ?thesis
    by (intro exI conjI)
      (rule nt ng ps hl [unfolded hl_eq] gp [unfolded gp_eq] keys [unfolded same] each [unfolded same])+
qed

text \<open>
  Claim C1, as amended. For every aligned triple of charge tables and every pair of
  global indices, the combiner followed by the loop of \<^verbatim>\<open>write_local_electro\<close> gives
  each label of the neutral table a row, and every row holds, for an atom \<open>i\<close> of that
  label, the neutral, cation and anion charges, f-, f+, and then
  local_nucleophilicity \<open>= anion_charge * global_nucleophilicity\<close> and
  local_electrophilicity \<open>= anion_charge * global_electrophilicity\<close>: both local
  indices are products of the value at index 2 of the row, the anion charge, and
  neither of f- (index 3) nor of f+ (index 4). The same holds of every result of
  \<^verbatim>\<open>write_local_electro\<close> in either script, with the three tables parsed from the
  neutral, \<^verbatim>\<open>-1\<close> and \<^verbatim>\<open>+1\<close> logs and the global indices that \<^verbatim>\<open>get_properties\<close>
  returns on the orbital energies of the neutral log.
\<close>

theorem local_indices_from_anion:
  "(length ng = length nt \<and> length ps = length nt \<and>
    (\<forall>i<length nt. fst (ng ! i) = fst (nt ! i) \<and> fst (ps ! i) = fst (nt ! i)) \<longrightarrow>
    (\<exists>ov out. combine_tables_nbo nt ng ps = Inr ov \<and> combine_tables_props nt ng ps = Inr ov \<and>
       extend_rows ov (map fst ov) gn ge = Inr out \<and>
       fst ` set out = fst ` set nt \<and>
       (\<forall>r\<in>set out. \<exists>i<length nt. fst r = fst (nt ! i) \<and>
          snd r = [snd (nt ! i), snd (ps ! i), snd (ng ! i),
                   snd (nt ! i) - snd (ps ! i), snd (ng ! i) - snd (nt ! i),
                   snd (ng ! i) * gn, snd (ng ! i) * ge]))) \<and>
   (write_local_electro_nbo pf fs path = Inr rows \<longrightarrow>
    (\<exists>nt ng ps homo lumo en h s ge gn.
       get_charge_table_nbo pf fs path = Inr nt \<and>
       get_charge_table_nbo pf fs (strip_ext path @ ''-1.log'') = Inr ng \<and>
       get_charge_table_nbo pf fs (strip_ext path @ ''+1.log'') = Inr ps \<and>
       get_homo_lumo_nbo pf fs path = Inr (homo, lumo) \<and>
       get_properties_nbo homo lumo = Inr (en, h, s, ge, gn) \<and>
       fst ` set rows = fst ` set nt \<and>
       (\<forall>r\<in>set rows. \<exists>i<length nt. i < length ng \<and> i < length ps \<and> fst r = fst (nt ! i) \<and>
          snd r = [snd (nt ! i), snd (ps ! i), snd (ng ! i),
                   snd (nt ! i) - snd (ps ! i), snd (ng ! i) - snd (nt ! i),
                   snd (ng ! i) * gn, snd (ng ! i) * ge]))) \<and>
   (write_local_electro_props pf fs path = Inr rows \<longrightarrow>
    (\<exists>nt ng ps homo lumo en h s ge gn.
       get_charge_table_props pf fs path = Inr nt \<and>
       get_charge_table_props pf fs (strip_ext path @ ''-1.log'') = Inr ng \<and>
       get_charge_table_props pf fs (strip_ext path @ ''+1.log'') = Inr ps \<and>
       get_homo_lumo_props pf fs path = Inr (homo, lumo) \<and>
       get_properties_props homo lumo = Inr (en, h, s, ge, gn) \<and>
       fst ` set rows = fst ` set nt \<and>
       (\<forall>r\<in>set rows. \<exists>i<length nt. i < length ng \<and> i < length ps \<and> fst r = fst (nt ! i) \<and>
          snd r = [snd (nt ! i), snd (ps ! i), snd (ng ! i),
                   snd (nt ! i) - snd (ps ! i), snd (ng ! i) - snd (nt ! i),
                   snd (ng ! i) * gn, snd (ng ! i) * ge])))"
proof (intro conjI impI)
  assume a: "length ng = length nt \<and> length ps = length nt \<and>
    (\<forall>i<length nt. fst (ng ! i) = fst (nt ! i) \<and> fst (ps ! i) = fst (nt ! i))"
  then obtain ov where ov: "combine_tables_nbo nt ng ps = Inr ov"
    using aligned_combined [of ng nt ps] by blast
  then have props: "combine_tables_props nt ng ps = Inr ov"
    by (simp only: combine_tables_props_nbo)
  from combine_then_extend [OF ov, of gn ge] obtain out
    where out: "extend_rows ov (map fst ov) gn ge = Inr out"
      and keys: "fst ` set out = fst ` set nt"
      and each: "\<forall>r\<in>set out. \<exists>i<length nt. i < length ng \<and> i < length ps \<and> fst r = fst (nt ! i) \<and>
        snd r = [snd (nt ! i), snd (ps ! i), snd (ng ! i),
                 snd (nt ! i) - snd (ps ! i), snd (ng ! i) - snd (nt ! i),
                 snd (ng ! i) * gn, snd (ng ! i) * ge]"
    by (elim exE conjE)
  from each have each': "\<forall>r\<in>set out. \<exists>i<length nt. fst r = fst (nt ! i) \<and>
        snd r = [snd (nt ! i), snd (ps ! i), snd (ng ! i),
                 snd (nt ! i) - snd (ps ! i), snd (ng ! i) - snd (nt ! i),
                 snd (ng ! i) * gn, snd (ng ! i) * ge]"
    by blast
  show "\<exists>ov out. combine_tables_nbo nt ng ps = Inr ov \<and> combine_tables_props nt ng ps = Inr ov \<and>
       extend_rows ov (map fst ov) gn ge = Inr out \<and>
       fst ` set out = fst ` set nt \<and>
       (\<forall>r\<in>set out. \<exists>i<length nt. fst r = fst (nt ! i) \<and>
          snd r = [snd (nt ! i), snd (ps ! i), snd (ng ! i),
                   snd (nt ! i) - snd (ps ! i), snd (ng ! i) - snd (nt ! i),
                   snd (ng ! i) * gn, snd (ng ! i) * ge])"
    by (intro exI conjI) (rule ov props out keys each')+
qed (erule write_local_electro_nbo_rows write_local_electro_props_rows)+

theorem local_indices_from_anion_witness:
  "(\<exists>ov out. combine_tables_nbo [(''C1'', 0.5)] [(''C1'', 0.2)] [(''C1'', 0.1)] = Inr ov \<and>
     combine_tables_props [(''C1'', 0.5)] [(''C1'', 0.2)] [(''C1'', 0.1)] = Inr ov \<and>
     extend_rows ov (map fst ov) 10 100 = Inr out \<and>
     fst ` set out = fst ` set [(''C1'', 0.5::real)] \<and>
     (\<forall>r\<in>set out. \<exists>i<length [(''C1'', 0.5::real)]. fst r = fst ([(''C1'', 0.5::real)] ! i) \<and>
        snd r = [snd ([(''C1'', 0.5::real)] ! i), snd ([(''C1'', 0.1::real)] ! i),
                 snd ([(''C1'', 0.2::real)] ! i),
                 snd ([(''C1'', 0.5::real)] ! i) - snd ([(''C1'', 0.1::real)] ! i),
                 snd ([(''C1'', 0.2::real)] ! i) - snd ([(''C1'', 0.5::real)] ! i),
                 snd ([(''C1'', 0.2::real)] ! i) * 10, snd ([(''C1'', 0.2::real)] ! i) * 100])) \<and>
   (\<exists>nt ng ps homo lumo en h s ge gn.
       get_charge_table_nbo dec_float example_nbo_fs ''a.log'' = Inr nt \<and>
       get_charge_table_nbo dec_float example_nbo_fs (strip_ext ''a.log'' @ ''-1.log'') = Inr ng \<and>
       get_charge_table_nbo dec_float example_nbo_fs (strip_ext ''a.log'' @ ''+1.log'') = Inr ps \<and>
       get_homo_lumo_nbo dec_float example_nbo_fs ''a.log'' = Inr (homo, lumo) \<and>
       get_properties_nbo homo lumo = Inr (en, h, s, ge, gn) \<and>
       fst ` set [(''C1'', [0.5, 0.1, 0.2, 0.4, - 0.3, 0.2 * (1 / 0.34015), 0.2 * 0.34015]),
          (''C3'', [0.25, 0.25, 0.25, 0, 0, 0.25 * (1 / 0.34015), 0.25 * 0.34015::real])] = fst ` set nt \<and>
       (\<forall>r\<in>set [(''C1'', [0.5, 0.1, 0.2, 0.4, - 0.3, 0.2 * (1 / 0.34015), 0.2 * 0.34015]),
          (''C3'', [0.25, 0.25, 0.25, 0, 0, 0.25 * (1 / 0.34015), 0.25 * 0.34015::real])].
          \<exists>i<length nt. i < length ng \<and> i < length ps \<and> fst r = fst (nt ! i) \<and>
          snd r = [snd (nt ! i), snd (ps ! i), snd (ng ! i),
                   snd (nt ! i) - snd (ps ! i), snd (ng ! i) - snd (nt ! i),
                   snd (ng ! i) * gn, snd (ng ! i) * ge])) \<and>
   (\<exists>nt ng ps homo lumo en h s ge gn.
       get_charge_table_props dec_float example_mulliken_fs ''m.log'' = Inr nt \<and>
       get_charge_table_props dec_float example_mulliken_fs (strip_ext ''m.log'' @ ''-1.log'') = Inr ng \<and>
       get_charge_table_props dec_float example_mulliken_fs (strip_ext ''m.log'' @ ''+1.log'') = Inr ps \<and>
       get_homo_lumo_props dec_float example_mulliken_fs ''m.log'' = Inr (homo, lumo) \<and>
       get_properties_props homo lumo = Inr (en, h, s, ge, gn) \<and>
       fst ` set [(''C1'', [0.5, 0.1, 0.2, 0.4, - 0.3, 0.2 * (1 / 0.34015), 0.2 * 0.34015]),
          (''C2'', [0.25, 0.25, 0.25, 0, 0, 0.25 * (1 / 0.34015), 0.25 * 0.34015::real])] = fst ` set nt \<and>
       (\<forall>r\<in>set [(''C1'', [0.5, 0.1, 0.2, 0.4, - 0.3, 0.2 * (1 / 0.34015), 0.2 * 0.34015]),
          (''C2'', [0.25, 0.25, 0.25, 0, 0, 0.25 * (1 / 0.34015), 0.25 * 0.34015::real])].
          \<exists>i<length nt. i < length ng \<and> i < length ps \<and> fst r = fst (nt ! i) \<and>
          snd r = [snd (nt ! i), snd (ps ! i), snd (ng ! i),
                   snd (nt ! i) - snd (ps ! i), snd (ng ! i) - snd (nt ! i),
                   snd (ng ! i) * gn, snd (ng ! i) * ge]))"
proof -
  have h: "length [(''C1'', 0.2::real)] = length [(''C1'', 0.5::real)] \<and>
      length [(''C1'', 0.1::real)] = length [(''C1'', 0.5::real)] \<and>
      (\<forall>i<length [(''C1'', 0.5::real)].
         fst ([(''C1'', 0.2::real)] ! i) = fst ([(''C1'', 0.5::real)] ! i) \<and>
         fst ([(''C1'', 0.1::real)] ! i) = fst ([(''C1'', 0.5::real)] ! i))"
    by simp
  note nbo = local_indices_from_anion [where ng = "[(''C1'', 0.2)]" and nt = "[(''C1'', 0.5)]"
      and ps = "[(''C1'', 0.1)]" and gn = 10 and ge = 100
      and pf = dec_float and fs = example_nbo_fs and path = "''a.log''"
      and rows = "[(''C1'', [0.5, 0.1, 0.2, 0.4, - 0.3, 0.2 * (1 / 0.34015), 0.2 * 0.34015]),
          (''C3'', [0.25, 0.25, 0.25, 0, 0, 0.25 * (1 / 0.34015), 0.25 * 0.34015])]"]
  note mul = local_indices_from_anion [where pf = dec_float and fs = example_mulliken_fs
      and path = "''m.log''"
      and rows = "[(''C1'', [0.5, 0.1, 0.2, 0.4, - 0.3, 0.2 * (1 / 0.34015), 0.2 * 0.34015]),
          (''C2'', [0.25, 0.25, 0.25, 0, 0, 0.25 * (1 / 0.34015), 0.25 * 0.34015])]"]
  note a = nbo [THEN conjunct1, THEN mp, OF h]
  note b = nbo [THEN conjunct2, THEN conjunct1, THEN mp, OF example_nbo_output]
  note c = mul [THEN conjunct2, THEN conjunct2, THEN mp, OF example_mulliken_output]
  show ?thesis
    by (intro conjI) (rule a b c)+
qed

text \<open>Claim C1 as stated fails: with neutral charge 0.5, cation charge 0.1 and anion
  charge 0.2, f- is 0.4, and under the global indices 10 and 100 the local indices are
  2 and 20, not 4 and 40. The same on the three Mulliken logs, run through
  \<^verbatim>\<open>write_local_electro\<close>: the first carbon gets \<open>0.2 / 0.34015\<close>, not \<open>0.4 / 0.34015\<close>.\<close>

theorem local_indices_counterexample:
  "combine_tables_nbo [(''C1'', 0.5)] [(''C1'', 0.2)] [(''C1'', 0.1)] =
     Inr [(''C1'', [0.5, 0.1, 0.2, 0.4, - 0.3])] \<and>
   extend_rows [(''C1'', [0.5, 0.1, 0.2, 0.4, - 0.3])] [''C1''] 10 100 =
     Inr [(''C1'', [0.5, 0.1, 0.2, 0.4, - 0.3, 2, 20])] \<and>
   (0.5 - 0.1) * 10 \<noteq> (2::real) \<and> (0.5 - 0.1) * 100 \<noteq> (20::real) \<and>
   get_properties_props (- 0.3) 0.1 = Inr (2.7212, 10.8848, 1 / 21.7696, 0.34015, 1 / 0.34015) \<and>
   write_local_electro_props dec_float example_mulliken_fs ''m.log'' =
     Inr [(''C1'', [0.5, 0.1, 0.2, 0.4, - 0.3, 0.2 * (1 / 0.34015), 0.2 * 0.34015]),
          (''C2'', [0.25, 0.25, 0.25, 0, 0, 0.25 * (1 / 0.34015), 0.25 * 0.34015])] \<and>
   (0.5 - 0.1) * (1 / 0.34015) \<noteq> 0.2 * (1 / 0.34015 :: real)"
proof -
  have "(0.5 - 0.1) * 10 \<noteq> (2::real)" "(0.5 - 0.1) * 100 \<noteq> (20::real)"
    "(0.5 - 0.1) * (1 / 0.34015) \<noteq> 0.2 * (1 / 0.34015 :: real)"
    by simp_all
  with example_extend_rows get_properties_example example_mulliken_output show ?thesis
    by (intro conjI) (erule conjunct1 conjunct2 | assumption)+
qed

section \<open>Properties of the charge-table parser\<close>

lemma drop_hydrogen_Inr:
  "drop_hydrogen rows = Inr kept \<Longrightarrow>
     kept = filter (\<lambda>r. r ! 0 \<noteq> ''H'') rows \<and> (\<forall>r\<in>set rows. r \<noteq> [])"
proof (induction rows arbitrary: kept)
  case Nil
  then show ?case by simp
next
  case (Cons line rest)
  from Cons.prems obtain tl where ne: "line \<noteq> []" and tl: "drop_hydrogen rest = Inr tl"
    and kept: "kept = (if line ! 0 \<noteq> ''H'' then line # tl else tl)"
    by (auto simp: py_index_0 ebind_eq_Inr split: if_splits)
  from Cons.IH [OF tl] ne kept show ?case by simp
qed

lemma entries_nbo_Inr:
  "entries_nbo pf rows = Inr t \<Longrightarrow>
     map fst t = map (\<lambda>r. r ! 0 @ r ! 1) (filter (\<lambda>r. r ! 0 \<noteq> ''H'') rows) \<and>
     (\<forall>r\<in>set rows. r \<noteq> [])"
proof (induction rows arbitrary: t)
  case Nil
  then show ?case by simp
next
  case (Cons entry rest)
  from Cons.prems have ne: "entry \<noteq> []"
    by (auto simp: py_index_0 split: if_splits)
  show ?case
  proof (cases "entry ! 0 = ''H''")
    case True
    with Cons.prems ne have "entries_nbo pf rest = Inr t"
      by (simp add: py_index_0)
    from Cons.IH [OF this] True ne show ?thesis by simp
  next
    case False
    with Cons.prems ne obtain charge tl where tl: "entries_nbo pf rest = Inr tl"
      and t: "t = (entry ! 0 @ entry ! 1, charge) # tl"
      by (auto simp: py_index_0 py_index_1 py_index_numeral ebind_eq_Inr split: if_splits)
    from Cons.IH [OF tl] False ne t show ?thesis by simp
  qed
qed

lemma label_rows_Inr:
  "label_rows pf d rows = Inr t \<Longrightarrow>
   (\<And>e. d e = (if count_list pre e = 0 then None else Some (count_list pre e))) \<Longrightarrow>
     length t = length rows \<and>
     (\<forall>i<length rows. fst (t ! i) =
        (rows ! i) ! 0 @ py_str (count_list (pre @ take (Suc i) (map (\<lambda>r. r ! 0) rows)) ((rows ! i) ! 0)))"
proof (induction rows arbitrary: t d pre)
  case Nil
  then show ?case by simp
next
  case (Cons row rest)
  define elem where "elem = row ! 0"
  define n where "n = (case d elem of Some k \<Rightarrow> k + 1 | None \<Rightarrow> 1)"
  from Cons.prems(1) obtain charge tl where
    tl: "label_rows pf (d(elem \<mapsto> n)) rest = Inr tl"
    and t: "t = (elem @ py_str n, charge) # tl"
    unfolding elem_def n_def
    by (auto simp: py_index_0 py_index_1 ebind_eq_Inr Let_def split: if_splits)
  have n: "n = count_list (pre @ [elem]) elem"
    unfolding n_def using Cons.prems(2) [of elem] by simp
  have inv: "(d(elem \<mapsto> n)) e =
      (if count_list (pre @ [elem]) e = 0 then None else Some (count_list (pre @ [elem]) e))" for e
    using Cons.prems(2) [of e] n by simp
  from Cons.IH [OF tl inv] have len: "length tl = length rest"
    and lab: "\<forall>i<length rest. fst (tl ! i) =
        (rest ! i) ! 0 @ py_str (count_list ((pre @ [elem]) @ take (Suc i) (map (\<lambda>r. r ! 0) rest)) ((rest ! i) ! 0))"
    by simp_all
  show ?case
  proof (intro conjI allI impI)
    show "length t = length (row # rest)"
      using t len by simp
  next
    fix i
    assume i: "i < length (row # rest)"
    show "fst (t ! i) = ((row # rest) ! i) ! 0 @
        py_str (count_list (pre @ take (Suc i) (map (\<lambda>r. r ! 0) (row # rest))) (((row # rest) ! i) ! 0))"
    proof (cases i)
      case 0
      then show ?thesis using t n by (simp add: elem_def)
    next
      case (Suc j)
      with i have j: "j < length rest" by simp
      from lab j have "fst (tl ! j) =
        (rest ! j) ! 0 @ py_str (count_list ((pre @ [elem]) @ take (Suc j) (map (\<lambda>r. r ! 0) rest)) ((rest ! j) ! 0))"
        by blast
      then show ?thesis using t Suc by (simp add: elem_def)
    qed
  qed
qed

lemma get_charge_table_nbo_Inr:
  "get_charge_table_nbo pf fs path = Inr t \<Longrightarrow>
     \<exists>rows. table_text_nbo fs path = Inr rows \<and> (\<forall>r\<in>set rows. r \<noteq> []) \<and>
       map fst t = map (\<lambda>r. r ! 0 @ r ! 1) (filter (\<lambda>r. r ! 0 \<noteq> ''H'') rows)"
  unfolding get_charge_table_nbo_def ebind_eq_Inr
  by (blast dest: entries_nbo_Inr)

lemma get_charge_table_props_Inr:
  "get_charge_table_props pf fs path = Inr t \<Longrightarrow>
     \<exists>rows. table_text_props fs path = Inr rows \<and> (\<forall>r\<in>set rows. r \<noteq> []) \<and>
       map fst t = map (occurrence_label (map (\<lambda>r. r ! 0) (filter (\<lambda>r. r ! 0 \<noteq> ''H'') rows)))
                     [0..<length (filter (\<lambda>r. r ! 0 \<noteq> ''H'') rows)]"
proof -
  assume "get_charge_table_props pf fs path = Inr t"
  then obtain rows kept where rows: "table_text_props fs path = Inr rows"
    and kept: "drop_hydrogen rows = Inr kept" and t: "label_rows pf Map.empty kept = Inr t"
    unfolding get_charge_table_props_def ebind_eq_Inr by blast
  from drop_hydrogen_Inr [OF kept]
  have k: "kept = filter (\<lambda>r. r ! 0 \<noteq> ''H'') rows" and ne: "\<forall>r\<in>set rows. r \<noteq> []"
    by simp_all
  have "length t = length kept \<and>
     (\<forall>i<length kept. fst (t ! i) =
        (kept ! i) ! 0 @ py_str (count_list ([] @ take (Suc i) (map (\<lambda>r. r ! 0) kept)) ((kept ! i) ! 0)))"
    by (rule label_rows_Inr [OF t]) simp
  then have "map fst t = map (occurrence_label (map (\<lambda>r. r ! 0) kept)) [0..<length kept]"
    by (intro nth_equalityI) (simp_all add: occurrence_label_def)
  with rows ne show ?thesis
    unfolding k by blast
qed

lemma occurrence_label_second: "occurrence_label [''C'', ''C''] 1 = ''C2''"
  by code_simp

text \<open>
  Claim C6, as amended. In a charge table parsed by \<^verbatim>\<open>write_electro_properties.py\<close>,
  the label of each atom is its element symbol followed by the occurrence index of
  that symbol among the non-hydrogen rows of the table so far, counted from 1 in a
  dictionary that starts empty for each table. In a charge table parsed by
  \<^verbatim>\<open>write_electro_nbo.py\<close> the label is the element symbol followed by the second
  token of the row, the atom number printed in the log, and nothing is counted.
\<close>

theorem charge_table_labels:
  "(get_charge_table_props pf fs path = Inr t \<longrightarrow>
      (\<exists>rows. table_text_props fs path = Inr rows \<and>
         map fst t = map (occurrence_label (map (\<lambda>r. r ! 0) (filter (\<lambda>r. r ! 0 \<noteq> ''H'') rows)))
                       [0..<length (filter (\<lambda>r. r ! 0 \<noteq> ''H'') rows)])) \<and>
   (get_charge_table_nbo pf fs' path' = Inr t' \<longrightarrow>
      (\<exists>rows. table_text_nbo fs' path' = Inr rows \<and>
         map fst t' = map (\<lambda>r. r ! 0 @ r ! 1) (filter (\<lambda>r. r ! 0 \<noteq> ''H'') rows)))"
  by (blast dest: get_charge_table_props_Inr get_charge_table_nbo_Inr)

theorem charge_table_labels_witness:
  "get_charge_table_props dec_float example_mulliken_fs ''m.log'' = Inr [(''C1'', 0.5), (''C2'', 0.25)] \<and>
   (\<exists>rows. table_text_props example_mulliken_fs ''m.log'' = Inr rows \<and>
      map fst [(''C1'', 0.5::real), (''C2'', 0.25)] =
        map (occurrence_label (map (\<lambda>r. r ! 0) (filter (\<lambda>r. r ! 0 \<noteq> ''H'') rows)))
          [0..<length (filter (\<lambda>r. r ! 0 \<noteq> ''H'') rows)]) \<and>
   get_charge_table_nbo dec_float example_nbo_fs ''a.log'' = Inr [(''C1'', 0.5), (''C3'', 0.25)] \<and>
   (\<exists>rows. table_text_nbo example_nbo_fs ''a.log'' = Inr rows \<and>
      map fst [(''C1'', 0.5::real), (''C3'', 0.25)] =
        map (\<lambda>r. r ! 0 @ r ! 1) (filter (\<lambda>r. r ! 0 \<noteq> ''H'') rows))"
  using charge_table_labels [where pf = dec_float and fs = example_mulliken_fs and path = "''m.log''"
      and t = "[(''C1'', 0.5), (''C2'', 0.25)]" and fs' = example_nbo_fs and path' = "''a.log''"
      and t' = "[(''C1'', 0.5), (''C3'', 0.25)]"]
    example_mulliken_table example_nbo_table
  by blast

text \<open>Claim C6 as stated fails for \<^verbatim>\<open>write_electro_nbo.py\<close>: in the NBO log whose rows
  are C 1, H 2 and C 3 the second carbon is labelled \<^verbatim>\<open>C3\<close>, where the occurrence index
  gives \<^verbatim>\<open>C2\<close>.\<close>

theorem charge_table_labels_counterexample:
  "table_text_nbo example_nbo_fs ''a.log'' =
     Inr [[''C'', ''1'', ''0.5''], [''H'', ''2'', ''0.1''], [''C'', ''3'', ''0.25'']] \<and>
   get_charge_table_nbo dec_float example_nbo_fs ''a.log'' = Inr [(''C1'', 0.5), (''C3'', 0.25)] \<and>
   occurrence_label [''C'', ''C''] 1 = ''C2''"
  by (intro conjI) (rule example_nbo_rows example_nbo_table occurrence_label_second)+

lemma nbo_entries_not_hydrogen:
  "get_charge_table_nbo pf fs path = Inr t \<Longrightarrow>
     \<exists>rows. table_text_nbo fs path = Inr rows \<and>
       (\<forall>e\<in>set t. \<exists>r\<in>set rows. r \<noteq> [] \<and> r ! 0 \<noteq> ''H'' \<and> fst e = r ! 0 @ r ! 1)"
proof -
  assume "get_charge_table_nbo pf fs path = Inr t"
  from get_charge_table_nbo_Inr [OF this] obtain rows
    where rows: "table_text_nbo fs path = Inr rows" and ne: "\<forall>r\<in>set rows. r \<noteq> []"
      and lab: "map fst t = map (\<lambda>r. r ! 0 @ r ! 1) (filter (\<lambda>r. r ! 0 \<noteq> ''H'') rows)"
    by blast
  have "\<exists>r\<in>set rows. r \<noteq> [] \<and> r ! 0 \<noteq> ''H'' \<and> fst e = r ! 0 @ r ! 1" if "e \<in> set t" for e
  proof -
    from that have "fst e \<in> set (map fst t)" by simp
    then have "fst e \<in> set (map (\<lambda>r. r ! 0 @ r ! 1) (filter (\<lambda>r. r ! 0 \<noteq> ''H'') rows))"
      by (simp only: lab)
    with ne show ?thesis by auto
  qed
  with rows show ?thesis by blast
qed

lemma props_entries_not_hydrogen:
  "get_charge_table_props pf fs path = Inr t \<Longrightarrow>
     \<exists>rows. table_text_props fs path = Inr rows \<and>
       (\<forall>e\<in>set t. \<exists>r\<in>set rows. \<exists>n. r \<noteq> [] \<and> r ! 0 \<noteq> ''H'' \<and> fst e = r ! 0 @ py_str n)"
proof -
  assume "get_charge_table_props pf fs path = Inr t"
  from get_charge_table_props_Inr [OF this] obtain rows
    where rows: "table_text_props fs path = Inr rows" and ne: "\<forall>r\<in>set rows. r \<noteq> []"
      and lab: "map fst t = map (occurrence_label (map (\<lambda>r. r ! 0) (filter (\<lambda>r. r ! 0 \<noteq> ''H'') rows)))
                     [0..<length (filter (\<lambda>r. r ! 0 \<noteq> ''H'') rows)]"
    by blast
  define kept where "kept = filter (\<lambda>r. r ! 0 \<noteq> ''H'') rows"
  have "\<exists>r\<in>set rows. \<exists>n. r \<noteq> [] \<and> r ! 0 \<noteq> ''H'' \<and> fst e = r ! 0 @ py_str n" if "e \<in> set t" for e
  proof -
    from that have "fst e \<in> set (map fst t)" by simp
    then have "fst e \<in> set (map (occurrence_label (map (\<lambda>r. r ! 0) kept)) [0..<length kept])"
      by (simp only: lab kept_def)
    then obtain i where i: "i < length kept" and e: "fst e = occurrence_label (map (\<lambda>r. r ! 0) kept) i"
      by auto
    from i have mem: "kept ! i \<in> set kept" by simp
    then have "kept ! i \<in> set rows" "(kept ! i) ! 0 \<noteq> ''H''"
      unfolding kept_def by auto
    moreover from e i have "\<exists>n. fst e = (kept ! i) ! 0 @ py_str n"
      by (auto simp: occurrence_label_def)
    ultimately show ?thesis using ne by blast
  qed
  with rows show ?thesis by blast
qed

lemma write_local_electro_nbo_Inr:
  "write_local_electro_nbo pf fs path = Inr out \<Longrightarrow>
     \<exists>nt. get_charge_table_nbo pf fs path = Inr nt \<and> fst ` set out = fst ` set nt"
proof -
  assume "write_local_electro_nbo pf fs path = Inr out"
  then obtain nt ng ps ov gn ge where nt: "get_charge_table_nbo pf fs path = Inr nt"
    and ov: "combine_tables_nbo nt ng ps = Inr ov"
    and out: "extend_rows ov (map fst ov) gn ge = Inr out"
    unfolding write_local_electro_nbo_def by (auto simp: ebind_eq_Inr split: prod.splits)
  from extend_rows_keys [OF out] have "fst ` set out = fst ` set ov"
    by (metis set_map)
  with combine_tables_nbo_keys [OF ov] nt show ?thesis by simp
qed

lemma write_local_electro_props_Inr:
  "write_local_electro_props pf fs path = Inr out \<Longrightarrow>
     \<exists>nt. get_charge_table_props pf fs path = Inr nt \<and> fst ` set out = fst ` set nt"
proof -
  assume "write_local_electro_props pf fs path = Inr out"
  then obtain nt ng ps ov gn ge where nt: "get_charge_table_props pf fs path = Inr nt"
    and ov: "combine_tables_props nt ng ps = Inr ov"
    and out: "extend_rows ov (map fst ov) gn ge = Inr out"
    unfolding write_local_electro_props_def by (auto simp: ebind_eq_Inr split: prod.splits)
  from extend_rows_keys [OF out] have "fst ` set out = fst ` set ov"
    by (metis set_map)
  with combine_tables_nbo_keys [of nt ng ps ov] ov nt show ?thesis
    by (simp add: combine_tables_props_nbo)
qed

text \<open>
  Claim C9. No row whose element token is \<^verbatim>\<open>H\<close> reaches a result. Every entry of a
  parsed charge table, in either script, is made from a row of the log's table whose
  first token is not \<^verbatim>\<open>H\<close>; the keys of the combined table are the labels of the
  neutral charge table; and the keys of the rows that \<^verbatim>\<open>write_local_electro\<close> hands to
  the writer are the labels of the neutral charge table parsed from the log.
\<close>

theorem hydrogen_rows_never_appear:
  "(get_charge_table_nbo pf fs path = Inr t \<longrightarrow>
      (\<exists>rows. table_text_nbo fs path = Inr rows \<and>
         (\<forall>e\<in>set t. \<exists>r\<in>set rows. r \<noteq> [] \<and> r ! 0 \<noteq> ''H'' \<and> fst e = r ! 0 @ r ! 1))) \<and>
   (get_charge_table_props pf fs path = Inr t \<longrightarrow>
      (\<exists>rows. table_text_props fs path = Inr rows \<and>
         (\<forall>e\<in>set t. \<exists>r\<in>set rows. \<exists>n. r \<noteq> [] \<and> r ! 0 \<noteq> ''H'' \<and> fst e = r ! 0 @ py_str n))) \<and>
   (combine_tables_nbo nt ng ps = Inr ov \<longrightarrow> fst ` set ov = fst ` set nt) \<and>
   (combine_tables_props nt ng ps = Inr ov \<longrightarrow> fst ` set ov = fst ` set nt) \<and>
   (write_local_electro_nbo pf fs path = Inr out \<longrightarrow>
      (\<exists>nt. get_charge_table_nbo pf fs path = Inr nt \<and> fst ` set out = fst ` set nt)) \<and>
   (write_local_electro_props pf fs path = Inr out \<longrightarrow>
      (\<exists>nt. get_charge_table_props pf fs path = Inr nt \<and> fst ` set out = fst ` set nt))"
proof (intro conjI impI)
  assume "combine_tables_props nt ng ps = Inr ov"
  then show "fst ` set ov = fst ` set nt"
    by (simp add: combine_tables_props_nbo combine_tables_nbo_keys)
qed (erule nbo_entries_not_hydrogen props_entries_not_hydrogen combine_tables_nbo_keys
      write_local_electro_nbo_Inr write_local_electro_props_Inr)+

theorem hydrogen_rows_never_appear_witness:
  "get_charge_table_nbo dec_float example_nbo_fs ''a.log'' = Inr [(''C1'', 0.5), (''C3'', 0.25)] \<and>
   (\<exists>rows. table_text_nbo example_nbo_fs ''a.log'' = Inr rows \<and>
      (\<forall>e\<in>set [(''C1'', 0.5::real), (''C3'', 0.25)].
         \<exists>r\<in>set rows. r \<noteq> [] \<and> r ! 0 \<noteq> ''H'' \<and> fst e = r ! 0 @ r ! 1)) \<and>
   get_charge_table_props dec_float example_mulliken_fs ''m.log'' = Inr [(''C1'', 0.5), (''C2'', 0.25)] \<and>
   (\<exists>rows. table_text_props example_mulliken_fs ''m.log'' = Inr rows \<and>
      (\<forall>e\<in>set [(''C1'', 0.5::real), (''C2'', 0.25)].
         \<exists>r\<in>set rows. \<exists>n. r \<noteq> [] \<and> r ! 0 \<noteq> ''H'' \<and> fst e = r ! 0 @ py_str n)) \<and>
   fst ` set [(''C1'', [0.5, 0.1, 0.2, 0.4, - 0.3]), (''C3'', [0.25, 0.25, 0.25, 0, 0::real])] =
     fst ` set [(''C1'', 0.5::real), (''C3'', 0.25)] \<and>
   (\<exists>nt. get_charge_table_nbo dec_float example_nbo_fs ''a.log'' = Inr nt \<and>
      fst ` set [(''C1'', [0.5, 0.1, 0.2, 0.4, - 0.3, 0.2 * (1 / 0.34015), 0.2 * 0.34015]),
          (''C3'', [0.25, 0.25, 0.25, 0, 0, 0.25 * (1 / 0.34015), 0.25 * 0.34015::real])] = fst ` set nt) \<and>
   (\<exists>nt. get_charge_table_props dec_float example_mulliken_fs ''m.log'' = Inr nt \<and>
      fst ` set [(''C1'', [0.5, 0.1, 0.2, 0.4, - 0.3, 0.2 * (1 / 0.34015), 0.2 * 0.34015]),
          (''C2'', [0.25, 0.25, 0.25, 0, 0, 0.25 * (1 / 0.34015), 0.25 * 0.34015::real])] = fst ` set nt)"
proof -
  note nbo = hydrogen_rows_never_appear [where pf = dec_float and fs = example_nbo_fs
      and path = "''a.log''" and t = "[(''C1'', 0.5), (''C3'', 0.25)]"
      and nt = "[(''C1'', 0.5), (''C3'', 0.25)]" and ng = "[(''C1'', 0.2), (''C3'', 0.25)]"
      and ps = "[(''C1'', 0.1), (''C3'', 0.25)]"
      and ov = "[(''C1'', [0.5, 0.1, 0.2, 0.4, - 0.3]), (''C3'', [0.25, 0.25, 0.25, 0, 0])]"
      and out = "[(''C1'', [0.5, 0.1, 0.2, 0.4, - 0.3, 0.2 * (1 / 0.34015), 0.2 * 0.34015]),
          (''C3'', [0.25, 0.25, 0.25, 0, 0, 0.25 * (1 / 0.34015), 0.25 * 0.34015])]"]
  note mul = hydrogen_rows_never_appear [where pf = dec_float and fs = example_mulliken_fs
      and path = "''m.log''" and t = "[(''C1'', 0.5), (''C2'', 0.25)]"
      and out = "[(''C1'', [0.5, 0.1, 0.2, 0.4, - 0.3, 0.2 * (1 / 0.34015), 0.2 * 0.34015]),
          (''C2'', [0.25, 0.25, 0.25, 0, 0, 0.25 * (1 / 0.34015), 0.25 * 0.34015])]"]
  note a = nbo [THEN conjunct1, THEN mp, OF example_nbo_table]
  note b = mul [THEN conjunct2, THEN conjunct1, THEN mp, OF example_mulliken_table]
  note c = nbo [THEN conjunct2, THEN conjunct2, THEN conjunct1, THEN mp, OF example_combined]
  note d = nbo [THEN conjunct2, THEN conjunct2, THEN conjunct2, THEN conjunct2, THEN conjunct1,
      THEN mp, OF example_nbo_output]
  note e = mul [THEN conjunct2, THEN conjunct2, THEN conjunct2, THEN conjunct2, THEN conjunct2,
      THEN mp, OF example_mulliken_output]
  show ?thesis
    by (intro conjI) (rule example_nbo_table example_mulliken_table a b c d e)+
qed

section \<open>Properties of the log scanner\<close>

text \<open>The indices that a comprehension over \<^verbatim>\<open>enumerate\<close> collects.\<close>

lemma indices_where_snoc:
  "indices_where P (xs @ [x]) = indices_where P xs @ (if P x then [length xs] else [])"
  by (simp add: indices_where_def enumerate_append_eq)

lemma indices_where_filter: "indices_where P xs = filter (\<lambda>i. P (xs ! i)) [0..<length xs]"
proof (induction xs rule: rev_induct)
  case Nil
  show ?case by (simp add: indices_where_def)
next
  case (snoc x xs)
  have "filter (\<lambda>i. P (xs ! i)) [0..<length xs] = filter (\<lambda>i. P ((xs @ [x]) ! i)) [0..<length xs]"
    by (rule filter_cong) (simp_all add: nth_append)
  with snoc show ?case
    by (simp add: indices_where_snoc)
qed

lemma indices_where_empty: "\<forall>l\<in>set xs. \<not> P l \<Longrightarrow> indices_where P xs = []"
  by (simp add: indices_where_filter filter_empty_conv)

lemma filter_last_at:
  "q < length xs \<Longrightarrow> P (xs ! q) \<Longrightarrow> (\<forall>j. q < j \<and> j < length xs \<longrightarrow> \<not> P (xs ! j)) \<Longrightarrow>
     filter P xs \<noteq> [] \<and> last (filter P xs) = xs ! q"
proof -
  assume q: "q < length xs" and P: "P (xs ! q)"
    and after: "\<forall>j. q < j \<and> j < length xs \<longrightarrow> \<not> P (xs ! j)"
  have "\<not> P y" if "y \<in> set (drop (Suc q) xs)" for y
  proof -
    from that obtain k where "k < length (drop (Suc q) xs)" "y = drop (Suc q) xs ! k"
      by (auto simp: in_set_conv_nth)
    with after show ?thesis by simp
  qed
  then have tail: "filter P (drop (Suc q) xs) = []"
    by (simp add: filter_empty_conv)
  have "filter P xs = filter P (take q xs @ xs ! q # drop (Suc q) xs)"
    using q by (simp only: id_take_nth_drop [symmetric])
  with P tail have "filter P xs = filter P (take q xs) @ [xs ! q]"
    by simp
  then show ?thesis by simp
qed

lemma filter_first_at:
  "r < length xs \<Longrightarrow> P (xs ! r) \<Longrightarrow> (\<forall>j<r. \<not> P (xs ! j)) \<Longrightarrow>
     filter P xs \<noteq> [] \<and> filter P xs ! 0 = xs ! r"
proof -
  assume r: "r < length xs" and P: "P (xs ! r)" and before: "\<forall>j<r. \<not> P (xs ! j)"
  have "\<not> P y" if "y \<in> set (take r xs)" for y
  proof -
    from that obtain k where "k < length (take r xs)" "y = take r xs ! k"
      by (auto simp: in_set_conv_nth)
    with before show ?thesis by simp
  qed
  then have head: "filter P (take r xs) = []"
    by (simp add: filter_empty_conv)
  have "filter P xs = filter P (take r xs @ xs ! r # drop (Suc r) xs)"
    using r by (simp only: id_take_nth_drop [symmetric])
  with P head have "filter P xs = xs ! r # filter P (drop (Suc r) xs)"
    by simp
  then show ?thesis by simp
qed

lemma indices_where_last:
  "p < length xs \<Longrightarrow> P (xs ! p) \<Longrightarrow> (\<forall>j. p < j \<and> j < length xs \<longrightarrow> \<not> P (xs ! j)) \<Longrightarrow>
     py_index (indices_where P xs) (- 1) = Inr p"
  using filter_last_at [of p "[0..<length xs]" "\<lambda>i. P (xs ! i)"]
  by (simp add: indices_where_filter py_index_last)

lemma indices_where_first:
  "r < length xs \<Longrightarrow> P (xs ! r) \<Longrightarrow> (\<forall>j<r. \<not> P (xs ! j)) \<Longrightarrow>
     py_index (indices_where P xs) 0 = Inr r"
  using filter_first_at [of r "[0..<length xs]" "\<lambda>i. P (xs ! i)"]
  by (simp add: indices_where_filter py_index_0)

lemma filter_drop_empty: "\<forall>l\<in>set xs. \<not> P l \<Longrightarrow> filter P (drop n xs) = []"
  by (auto simp: filter_empty_conv dest: in_set_dropD)

lemma indices_where_drop_empty: "\<forall>l\<in>set xs. \<not> P l \<Longrightarrow> indices_where P (drop n xs) = []"
  by (rule indices_where_empty) (auto dest: in_set_dropD)

text \<open>A line that contains a marker has a token.\<close>

lemma split_from_Nil: "split_from tok s = [] \<longleftrightarrow> tok = [] \<and> (\<forall>c\<in>set s. is_space c)"
  by (induction s arbitrary: tok) auto

lemma py_split_nonempty:
  "sublist m l \<Longrightarrow> \<exists>c\<in>set m. \<not> is_space c \<Longrightarrow> py_split l \<noteq> []"
  unfolding py_split_def split_from_Nil sublist_def by auto

lemma py_index_error: "py_index xs i = Inl e \<Longrightarrow> e = IndexError"
  by (simp add: py_index_def split: if_splits)

lemma float_of_error: "float_of pf s = Inl e \<Longrightarrow> e = ValueError"
  by (simp add: float_of_def split: option.splits)

lemma get_homo_lumo_nbo_located:
  assumes fl: "fs path = Some content" and raw: "py_lines content = raw"
    and p: "p < length raw" "sublist ''Population analysis using the SCF density.'' (raw ! p)"
      "\<forall>j. p < j \<and> j < length raw \<longrightarrow> \<not> sublist ''Population analysis using the SCF density.'' (raw ! j)"
    and q: "p \<le> q" "q < length raw" "sublist ''Alpha  occ. eigenvalues'' (raw ! q)"
      "\<forall>j. q < j \<and> j < length raw \<longrightarrow> \<not> sublist ''Alpha  occ. eigenvalues'' (raw ! j)"
    and r: "p \<le> r" "r < length raw" "sublist ''Alpha virt. eigenvalues'' (raw ! r)"
      "\<forall>j. p \<le> j \<and> j < r \<longrightarrow> \<not> sublist ''Alpha virt. eigenvalues'' (raw ! j)"
  shows "get_homo_lumo_nbo pf fs path =
           ebind (float_of pf (last (py_split (raw ! q)))) (\<lambda>homo.
           ebind (py_index (py_split (raw ! r)) 4) (\<lambda>tok.
           ebind (float_of pf tok) (\<lambda>lumo. Inr (homo, lumo))))"
proof -
  let ?occ = "sublist ''Alpha  occ. eigenvalues''"
  let ?virt = "sublist ''Alpha virt. eigenvalues''"
  have pop: "py_index (indices_where (sublist ''Population analysis using the SCF density.'') raw) (- 1) = Inr p"
    using p by (intro indices_where_last) simp_all
  have "\<not> ?occ (drop p raw ! j)" if "q - p < j \<and> j < length (drop p raw)" for j
  proof -
    from that q(1) have "q < p + j \<and> p + j < length raw" by auto
    with q(4) have "\<not> ?occ (raw ! (p + j))" by blast
    with p(1) show ?thesis by simp
  qed
  then have "filter ?occ (drop p raw) \<noteq> [] \<and> last (filter ?occ (drop p raw)) = drop p raw ! (q - p)"
    using q(1,2,3) by (intro filter_last_at) simp_all
  then have occ: "py_index (filter ?occ (drop p raw)) (- 1) = Inr (raw ! q)"
    using q by (simp add: py_index_last)
  have "\<not> is_space (CHR ''A'')"
    by (simp add: is_space_def)
  then have "py_split (raw ! q) \<noteq> []"
    using q(3) by (intro py_split_nonempty [of "''Alpha  occ. eigenvalues''"]) simp_all
  then have tok: "py_index (py_split (raw ! q)) (- 1) = Inr (last (py_split (raw ! q)))"
    by (simp add: py_index_last)
  have "\<not> ?virt (drop p raw ! j)" if "j < r - p" for j
  proof -
    from that r(1,2) have "p \<le> p + j \<and> p + j < r" "p + j < length raw" by auto
    with r(4) have "\<not> ?virt (raw ! (p + j))" by blast
    with \<open>p + j < length raw\<close> show ?thesis by simp
  qed
  then have "filter ?virt (drop p raw) \<noteq> [] \<and> filter ?virt (drop p raw) ! 0 = drop p raw ! (r - p)"
    using r(1,2,3) by (intro filter_first_at) simp_all
  then have virt: "py_index (filter ?virt (drop p raw)) 0 = Inr (raw ! r)"
    using r by (simp add: py_index_0)
  have rd: "read_lines fs path = Inr raw"
    using fl raw by (simp add: read_lines_def)
  show ?thesis
    unfolding get_homo_lumo_nbo_def Let_def rd
    by (simp only: ebind_Inr pop occ tok virt)
qed

lemma all_between: "list_all Q [Suc a..<b] \<Longrightarrow> \<forall>j. a < j \<and> j < b \<longrightarrow> Q j"
  by (auto simp: list_all_iff)

lemma all_from: "list_all Q [a..<b] \<Longrightarrow> \<forall>j. a \<le> j \<and> j < b \<longrightarrow> Q j"
  by (auto simp: list_all_iff)

lemma example_orbital_lines:
  "py_lines example_orbital_log =
     ['' Population analysis using the SCF density.'',
      '' Alpha  occ. eigenvalues --   -0.9   -0.8'',
      '' Alpha virt. eigenvalues --    0.7    0.8'',
      '' Population analysis using the SCF density.'',
      '' Alpha  occ. eigenvalues --   -0.6   -0.5'',
      '' Alpha  occ. eigenvalues --   -0.4   -0.3'',
      '' Alpha virt. eigenvalues --    0.1    0.2'',
      '' Alpha virt. eigenvalues --    0.3    0.4'',
      '''']"
  by code_simp

lemma example_orbital_pop:
  "sublist ''Population analysis using the SCF density.'' (py_lines example_orbital_log ! 3) \<and>
   list_all (\<lambda>j. \<not> sublist ''Population analysis using the SCF density.''
                    (py_lines example_orbital_log ! j)) [Suc 3..<9]"
  by code_simp

lemma example_orbital_occ:
  "sublist ''Alpha  occ. eigenvalues'' (py_lines example_orbital_log ! 5) \<and>
   list_all (\<lambda>j. \<not> sublist ''Alpha  occ. eigenvalues'' (py_lines example_orbital_log ! j)) [Suc 5..<9]"
  by code_simp

lemma example_orbital_virt:
  "sublist ''Alpha virt. eigenvalues'' (py_lines example_orbital_log ! 6) \<and>
   list_all (\<lambda>j. \<not> sublist ''Alpha virt. eigenvalues'' (py_lines example_orbital_log ! j)) [3..<6]"
  by code_simp

lemma example_orbital_tokens:
  "dec_float (last (py_split (py_lines example_orbital_log ! 5))) = Some (- 0.3) \<and>
   4 < length (py_split (py_lines example_orbital_log ! 6)) \<and>
   dec_float (py_split (py_lines example_orbital_log ! 6) ! 4) = Some 0.1"
  by code_simp

text \<open>
  Claim C7. Let line \<open>p\<close> be the last line of the log that contains the
  population-analysis marker, line \<open>q\<close> the last line from \<open>p\<close> on that contains the
  occupied-eigenvalues marker and line \<open>r\<close> the first line from \<open>p\<close> on that contains
  the virtual-eigenvalues marker. Then \<^verbatim>\<open>get_homo_lumo\<close> of either script returns
  \<open>(homo, lumo)\<close> exactly when \<open>homo\<close> is the float of the last whitespace-delimited
  token of line \<open>q\<close> and \<open>lumo\<close> the float of the token at index 4 of line \<open>r\<close>.
  The lines scanned begin with the anchor line \<open>p\<close> itself.
\<close>

theorem get_homo_lumo_tokens:
  assumes "fs path = Some content" and "py_lines content = raw"
    and "p < length raw"
    and "sublist ''Population analysis using the SCF density.'' (raw ! p)"
    and "\<forall>j. p < j \<and> j < length raw \<longrightarrow>
           \<not> sublist ''Population analysis using the SCF density.'' (raw ! j)"
    and "p \<le> q" and "q < length raw"
    and "sublist ''Alpha  occ. eigenvalues'' (raw ! q)"
    and "\<forall>j. q < j \<and> j < length raw \<longrightarrow> \<not> sublist ''Alpha  occ. eigenvalues'' (raw ! j)"
    and "p \<le> r" and "r < length raw"
    and "sublist ''Alpha virt. eigenvalues'' (raw ! r)"
    and "\<forall>j. p \<le> j \<and> j < r \<longrightarrow> \<not> sublist ''Alpha virt. eigenvalues'' (raw ! j)"
  shows "(get_homo_lumo_nbo pf fs path = Inr (homo, lumo) \<longleftrightarrow>
            pf (last (py_split (raw ! q))) = Some homo \<and>
            4 < length (py_split (raw ! r)) \<and> pf (py_split (raw ! r) ! 4) = Some lumo) \<and>
         get_homo_lumo_props pf fs path = get_homo_lumo_nbo pf fs path"
proof -
  have "get_homo_lumo_nbo pf fs path =
           ebind (float_of pf (last (py_split (raw ! q)))) (\<lambda>homo.
           ebind (py_index (py_split (raw ! r)) 4) (\<lambda>tok.
           ebind (float_of pf tok) (\<lambda>lumo. Inr (homo, lumo))))"
    by (rule get_homo_lumo_nbo_located [where fs = fs and path = path and content = content
          and raw = raw and p = p and q = q and r = r, OF assms])
  then have "get_homo_lumo_nbo pf fs path = Inr (homo, lumo) \<longleftrightarrow>
      pf (last (py_split (raw ! q))) = Some homo \<and>
      4 < length (py_split (raw ! r)) \<and> pf (py_split (raw ! r) ! 4) = Some lumo"
    by (auto simp: ebind_eq_Inr float_of_eq_Inr py_index_numeral split: if_splits)
  then show ?thesis
    by (simp only: get_homo_lumo_props_nbo simp_thms)
qed

text \<open>On the log with two population analyses the anchor is line 3, the last occupied
  line is line 5 and the first virtual line from the anchor on is line 6.\<close>

theorem get_homo_lumo_tokens_witness:
  "get_homo_lumo_nbo dec_float example_bare_fs ''x.log'' = Inr (- 0.3, 0.1) \<and>
   get_homo_lumo_props dec_float example_bare_fs ''x.log'' = Inr (- 0.3, 0.1) \<and>
   last (py_split (py_lines example_orbital_log ! 5)) = ''-0.3'' \<and>
   py_split (py_lines example_orbital_log ! 6) ! 4 = ''0.1''"
proof -
  have fl: "example_bare_fs ''x.log'' = Some example_orbital_log"
    by (simp add: example_bare_fs_def)
  have len: "length (py_lines example_orbital_log) = 9"
    by (simp add: example_orbital_lines)
  have p: "(3::nat) < length (py_lines example_orbital_log)"
    and q: "(3::nat) \<le> 5" "(5::nat) < length (py_lines example_orbital_log)"
    and r: "(3::nat) \<le> 6" "(6::nat) < length (py_lines example_orbital_log)"
    by (simp_all add: len)
  have pop: "\<forall>j. 3 < j \<and> j < length (py_lines example_orbital_log) \<longrightarrow>
      \<not> sublist ''Population analysis using the SCF density.'' (py_lines example_orbital_log ! j)"
    unfolding len by (rule all_between) (rule example_orbital_pop [THEN conjunct2])
  have occ: "\<forall>j. 5 < j \<and> j < length (py_lines example_orbital_log) \<longrightarrow>
      \<not> sublist ''Alpha  occ. eigenvalues'' (py_lines example_orbital_log ! j)"
    unfolding len by (rule all_between) (rule example_orbital_occ [THEN conjunct2])
  have virt: "\<forall>j. 3 \<le> j \<and> j < 6 \<longrightarrow>
      \<not> sublist ''Alpha virt. eigenvalues'' (py_lines example_orbital_log ! j)"
    by (rule all_from) (rule example_orbital_virt [THEN conjunct2])
  note t = get_homo_lumo_tokens [where fs = example_bare_fs and path = "''x.log''"
      and content = example_orbital_log and raw = "py_lines example_orbital_log"
      and p = 3 and q = 5 and r = 6 and pf = dec_float and homo = "- 0.3" and lumo = "0.1",
      OF fl refl p example_orbital_pop [THEN conjunct1] pop
         q example_orbital_occ [THEN conjunct1] occ
         r example_orbital_virt [THEN conjunct1] virt]
  from t example_orbital_tokens
  have "get_homo_lumo_nbo dec_float example_bare_fs ''x.log'' = Inr (- 0.3, 0.1)"
    and "get_homo_lumo_props dec_float example_bare_fs ''x.log'' = Inr (- 0.3, 0.1)"
    by simp_all
  moreover have "last (py_split (py_lines example_orbital_log ! 5)) = ''-0.3''"
    "py_split (py_lines example_orbital_log ! 6) ! 4 = ''0.1''"
    by (simp_all add: example_orbital_lines py_split_def is_space_def)
  ultimately show ?thesis by simp
qed

lemma get_homo_lumo_nbo_no_pop:
  "fs path = Some content \<Longrightarrow>
   \<forall>l\<in>set (py_lines content). \<not> sublist ''Population analysis using the SCF density.'' l \<Longrightarrow>
   get_homo_lumo_nbo pf fs path = Inl IndexError"
  by (simp add: get_homo_lumo_nbo_def read_lines_def indices_where_empty py_index_last)

lemma get_homo_lumo_nbo_no_occ:
  "fs path = Some content \<Longrightarrow>
   \<forall>l\<in>set (py_lines content). \<not> sublist ''Alpha  occ. eigenvalues'' l \<Longrightarrow>
   get_homo_lumo_nbo pf fs path = Inl IndexError"
  by (simp add: get_homo_lumo_nbo_def read_lines_def Let_def filter_drop_empty py_index_last
      ebind_def split: sum.splits)

lemma get_homo_lumo_nbo_no_virt:
  "fs path = Some content \<Longrightarrow>
   \<forall>l\<in>set (py_lines content). \<not> sublist ''Alpha virt. eigenvalues'' l \<Longrightarrow>
   get_homo_lumo_nbo pf fs path = Inl IndexError \<or> get_homo_lumo_nbo pf fs path = Inl ValueError"
  by (auto simp: get_homo_lumo_nbo_def read_lines_def Let_def filter_drop_empty py_index_0
      ebind_def dest: py_index_error float_of_error split: sum.splits)

lemma table_text_nbo_no_section:
  "fs path = Some content \<Longrightarrow> \<forall>l\<in>set (py_lines content). \<not> sublist SECTION_HEADER l \<Longrightarrow>
   table_text_nbo fs path = Inl IndexError"
  by (simp add: table_text_nbo_def read_lines_def indices_where_empty py_index_last)

lemma table_text_nbo_no_table:
  "fs path = Some content \<Longrightarrow> \<forall>l\<in>set (py_lines content). \<not> sublist TABLE_HEADER l \<Longrightarrow>
   table_text_nbo fs path = Inl IndexError"
  by (auto simp: table_text_nbo_def read_lines_def Let_def indices_where_drop_empty py_index_0
      ebind_def dest: py_index_error split: sum.splits)

lemma table_text_nbo_no_end:
  "fs path = Some content \<Longrightarrow> \<forall>l\<in>set (py_lines content). \<not> prefix TABLE_END l \<Longrightarrow>
   table_text_nbo fs path = Inl IndexError"
proof -
  assume fl: "fs path = Some content" and no: "\<forall>l\<in>set (py_lines content). \<not> prefix TABLE_END l"
  have "indices_where (prefix TABLE_END) (drop m (drop n (py_lines content))) = []" for m n
    by (rule indices_where_empty) (use no in \<open>auto dest!: in_set_dropD\<close>)
  then show ?thesis
    using fl
    by (auto simp: table_text_nbo_def read_lines_def Let_def py_index_0
      ebind_def dest: py_index_error split: sum.splits)
qed

lemma table_text_props_no_table:
  "fs path = Some content \<Longrightarrow>
   \<forall>l\<in>set (py_lines content). \<not> sublist ''Mulliken atomic charges:'' l \<Longrightarrow>
   table_text_props fs path = Inl IndexError"
  by (simp add: table_text_props_def read_lines_def indices_where_empty py_index_last)

lemma table_text_props_no_end:
  "fs path = Some content \<Longrightarrow> \<forall>l\<in>set (py_lines content). \<not> prefix '' Sum'' l \<Longrightarrow>
   table_text_props fs path = Inl IndexError"
  by (auto simp: table_text_props_def read_lines_def Let_def indices_where_drop_empty py_index_0
      ebind_def dest: py_index_error split: sum.splits)

lemma example_no_marker:
  "(\<forall>l\<in>set (py_lines ''no marker in this file'').
      \<not> sublist ''Population analysis using the SCF density.'' l \<and>
      \<not> sublist ''Alpha  occ. eigenvalues'' l \<and>
      \<not> sublist ''Alpha virt. eigenvalues'' l \<and>
      \<not> sublist SECTION_HEADER l \<and> \<not> sublist TABLE_HEADER l \<and> \<not> prefix TABLE_END l \<and>
      \<not> sublist ''Mulliken atomic charges:'' l \<and> \<not> prefix '' Sum'' l)"
  by code_simp

lemma example_two_failures:
  "get_homo_lumo_nbo dec_float example_bare_fs ''a.log'' = Inl IndexError \<and>
   get_homo_lumo_nbo dec_float example_bare_fs ''b.log'' = Inl IndexError \<and>
   get_charge_table_nbo dec_float example_bare_fs ''a.log'' = Inl IndexError \<and>
   get_charge_table_props dec_float example_bare_fs ''b.log'' = Inl IndexError"
  by code_simp

text \<open>
  Claim C8, as amended. For every log that can be read and in which an expected
  marker occurs in no line, the extraction returns no value and raises Python's
  \<^verbatim>\<open>IndexError\<close>, which names neither the marker nor the file path: so
  \<^verbatim>\<open>get_homo_lumo\<close> without the population-analysis or the occupied-eigenvalues
  marker, \<^verbatim>\<open>get_charge_table\<close> of \<^verbatim>\<open>write_electro_nbo.py\<close> without the section
  header, the table header or a line that starts with the table end, and
  \<^verbatim>\<open>get_charge_table\<close> of \<^verbatim>\<open>write_electro_properties.py\<close> without the Mulliken marker
  or a line that starts with \<^verbatim>\<open> Sum\<close>. Without the virtual-eigenvalues marker
  \<^verbatim>\<open>get_homo_lumo\<close> raises \<^verbatim>\<open>IndexError\<close>, or \<^verbatim>\<open>ValueError\<close> when the HOMO token read
  before is not a float.
\<close>

theorem missing_marker_raises:
  assumes readable: "fs path = Some content"
  shows
   "((\<forall>l\<in>set (py_lines content). \<not> sublist ''Population analysis using the SCF density.'' l) \<longrightarrow>
      get_homo_lumo_nbo pf fs path = Inl IndexError) \<and>
    ((\<forall>l\<in>set (py_lines content). \<not> sublist ''Alpha  occ. eigenvalues'' l) \<longrightarrow>
      get_homo_lumo_nbo pf fs path = Inl IndexError) \<and>
    ((\<forall>l\<in>set (py_lines content). \<not> sublist ''Alpha virt. eigenvalues'' l) \<longrightarrow>
      get_homo_lumo_nbo pf fs path = Inl IndexError \<or>
      get_homo_lumo_nbo pf fs path = Inl ValueError) \<and>
    get_homo_lumo_props pf fs path = get_homo_lumo_nbo pf fs path \<and>
    ((\<forall>l\<in>set (py_lines content). \<not> sublist SECTION_HEADER l) \<longrightarrow>
      get_charge_table_nbo pf fs path = Inl IndexError) \<and>
    ((\<forall>l\<in>set (py_lines content). \<not> sublist TABLE_HEADER l) \<longrightarrow>
      get_charge_table_nbo pf fs path = Inl IndexError) \<and>
    ((\<forall>l\<in>set (py_lines content). \<not> prefix TABLE_END l) \<longrightarrow>
      get_charge_table_nbo pf fs path = Inl IndexError) \<and>
    ((\<forall>l\<in>set (py_lines content). \<not> sublist ''Mulliken atomic charges:'' l) \<longrightarrow>
      get_charge_table_props pf fs path = Inl IndexError) \<and>
    ((\<forall>l\<in>set (py_lines content). \<not> prefix '' Sum'' l) \<longrightarrow>
      get_charge_table_props pf fs path = Inl IndexError)"
proof (intro conjI impI)
  assume "\<forall>l\<in>set (py_lines content). \<not> sublist ''Population analysis using the SCF density.'' l"
  with readable show "get_homo_lumo_nbo pf fs path = Inl IndexError"
    by (rule get_homo_lumo_nbo_no_pop)
next
  assume "\<forall>l\<in>set (py_lines content). \<not> sublist ''Alpha  occ. eigenvalues'' l"
  with readable show "get_homo_lumo_nbo pf fs path = Inl IndexError"
    by (rule get_homo_lumo_nbo_no_occ)
next
  assume "\<forall>l\<in>set (py_lines content). \<not> sublist ''Alpha virt. eigenvalues'' l"
  with readable show "get_homo_lumo_nbo pf fs path = Inl IndexError \<or>
      get_homo_lumo_nbo pf fs path = Inl ValueError"
    by (rule get_homo_lumo_nbo_no_virt)
next
  show "get_homo_lumo_props pf fs path = get_homo_lumo_nbo pf fs path"
    by (simp only: get_homo_lumo_props_nbo)
next
  assume "\<forall>l\<in>set (py_lines content). \<not> sublist SECTION_HEADER l"
  with readable have "table_text_nbo fs path = Inl IndexError"
    by (rule table_text_nbo_no_section)
  then show "get_charge_table_nbo pf fs path = Inl IndexError"
    by (simp add: get_charge_table_nbo_def)
next
  assume "\<forall>l\<in>set (py_lines content). \<not> sublist TABLE_HEADER l"
  with readable have "table_text_nbo fs path = Inl IndexError"
    by (rule table_text_nbo_no_table)
  then show "get_charge_table_nbo pf fs path = Inl IndexError"
    by (simp add: get_charge_table_nbo_def)
next
  assume "\<forall>l\<in>set (py_lines content). \<not> prefix TABLE_END l"
  with readable have "table_text_nbo fs path = Inl IndexError"
    by (rule table_text_nbo_no_end)
  then show "get_charge_table_nbo pf fs path = Inl IndexError"
    by (simp add: get_charge_table_nbo_def)
next
  assume "\<forall>l\<in>set (py_lines content). \<not> sublist ''Mulliken atomic charges:'' l"
  with readable have "table_text_props fs path = Inl IndexError"
    by (rule table_text_props_no_table)
  then show "get_charge_table_props pf fs path = Inl IndexError"
    by (simp add: get_charge_table_props_def)
next
  assume "\<forall>l\<in>set (py_lines content). \<not> prefix '' Sum'' l"
  with readable have "table_text_props fs path = Inl IndexError"
    by (rule table_text_props_no_end)
  then show "get_charge_table_props pf fs path = Inl IndexError"
    by (simp add: get_charge_table_props_def)
qed

theorem missing_marker_raises_witness:
  "get_homo_lumo_nbo dec_float example_bare_fs ''a.log'' = Inl IndexError \<and>
   get_homo_lumo_props dec_float example_bare_fs ''a.log'' = Inl IndexError \<and>
   get_charge_table_nbo dec_float example_bare_fs ''a.log'' = Inl IndexError \<and>
   get_charge_table_props dec_float example_bare_fs ''a.log'' = Inl IndexError"
proof -
  have fl: "example_bare_fs ''a.log'' = Some ''no marker in this file''"
    by (simp add: example_bare_fs_def)
  from missing_marker_raises [where fs = example_bare_fs and path = "''a.log''"
      and content = "''no marker in this file''" and pf = dec_float, OF fl] example_no_marker
  show ?thesis by auto
qed

text \<open>Claim C8 as stated fails: the file \<^verbatim>\<open>a.log\<close> has no marker at all and the file
  \<^verbatim>\<open>b.log\<close> has the population-analysis marker but no eigenvalues, and the exception
  is the same value \<^verbatim>\<open>IndexError\<close> for both paths, for the different markers missing
  and for the three functions; it has no field for a marker or a path.\<close>

theorem missing_marker_counterexample:
  "get_homo_lumo_nbo dec_float example_bare_fs ''a.log'' = Inl IndexError \<and>
   get_homo_lumo_nbo dec_float example_bare_fs ''b.log'' = Inl IndexError \<and>
   get_charge_table_nbo dec_float example_bare_fs ''a.log'' = Inl IndexError \<and>
   get_charge_table_props dec_float example_bare_fs ''b.log'' = Inl IndexError"
  by (rule example_two_failures)

section \<open>The two scripts\<close>

text \<open>
  Claim C10. \<^verbatim>\<open>get_properties\<close> of \<^verbatim>\<open>write_electro_nbo.py\<close> and of
  \<^verbatim>\<open>write_electro_properties.py\<close> give the same result on every \<open>homo\<close> and \<open>lumo\<close>,
  the same tuple or the same exception, and so do the two \<^verbatim>\<open>combine_tables\<close> on
  every three charge tables.
\<close>

theorem pipelines_agree:
  "get_properties_nbo homo lumo = get_properties_props homo lumo \<and>
   combine_tables_nbo neutral negative positive = combine_tables_props neutral negative positive"
  by (simp add: get_properties_props_def get_properties_nbo_def
      combine_tables_props_def combine_tables_nbo_def combine_loop_props_nbo)

end
